theory Spec2Isabelle
  imports Main "HOL-Library.AList"
begin

section \<open>JavaScript values\<close>

text \<open>
  The values the program handles are JSON-shaped: the chunks of the completion stream, the
  accumulated message, the parsed tool arguments and the tool results. An object is the
  association list of its own properties, in the order they were added; its prototype is
  \<open>Object.prototype\<close>, whose members the reads below take into account where the name
  read can be one of them. Numbers are integers (no floating point). A string is a list of
  characters, each standing for one UTF-16 code unit below 256; the three punctuation marks
  of the dataset that lie outside this range are written as their UTF-8 bytes, in a text
  that the program only hands on.
\<close>

datatype jsval =
    JUndefined
  | JNull
  | JBool bool
  | JNum int
  | JStr string
  | JArr "jsval list"
  | JObj "(string \<times> jsval) list"

text \<open>What the program can throw, and what a rejected promise carries.\<close>

datatype error =
    TypeError
  | SyntaxError
  | RangeError
  | Error string
  | ProviderError

text \<open>The truthiness test of \<open>if (v)\<close> and \<open>!v\<close>.\<close>

fun truthy :: "jsval \<Rightarrow> bool" where
  "truthy JUndefined = False"
| "truthy JNull = False"
| "truthy (JBool b) = b"
| "truthy (JNum n) = (n \<noteq> 0)"
| "truthy (JStr s) = (s \<noteq> [])"
| "truthy (JArr xs) = True"
| "truthy (JObj kvs) = True"

text \<open>Decimal rendering of an index or an integer, as \<open>ToString\<close> gives it.\<close>

fun digits :: "nat \<Rightarrow> string" where
  "digits n = (if n < 10 then [''0123456789'' ! n]
               else digits (n div 10) @ [''0123456789'' ! (n mod 10)])"

declare digits.simps [simp del]

fun join :: "string \<Rightarrow> string list \<Rightarrow> string" where
  "join sep [] = []"
| "join sep [s] = s"
| "join sep (s # t # ss) = s @ sep @ join sep (t # ss)"

text \<open>
  \<open>ToString\<close>, the coercion that \<open>String.prototype.includes\<close> and \<open>JSON.parse\<close> apply
  to their argument, and \<open>+=\<close> on a string to its right operand. An array is joined
  through \<open>Array.prototype.toString\<close>, its elements converted in turn. An object is
  converted by the \<open>toString\<close> it inherits, unless it has a property \<open>toString\<close> of
  its own: the values here hold no functions, so that property cannot be called, neither
  \<open>valueOf\<close> gives a primitive, and the conversion throws a TypeError.
\<close>

fun ToString :: "jsval \<Rightarrow> error + string"
  and ToString_elements :: "jsval list \<Rightarrow> error + string list" where
  "ToString JUndefined = Inr ''undefined''"
| "ToString JNull = Inr ''null''"
| "ToString (JBool b) = Inr (if b then ''true'' else ''false'')"
| "ToString (JNum n) = Inr (if n < 0 then ''-'' @ digits (nat (- n)) else digits (nat n))"
| "ToString (JStr s) = Inr s"
| "ToString (JArr xs) =
     (case ToString_elements xs of Inl e \<Rightarrow> Inl e | Inr ss \<Rightarrow> Inr (join '','' ss))"
| "ToString (JObj kvs) =
     (case map_of kvs ''toString'' of
        None \<Rightarrow> Inr ''[object Object]''
      | Some f \<Rightarrow> Inl TypeError)"
| "ToString_elements [] = Inr []"
| "ToString_elements (x # xs) =
     (case (if x = JUndefined \<or> x = JNull then Inr [] else ToString x) of
        Inl e \<Rightarrow> Inl e
      | Inr s \<Rightarrow>
         (case ToString_elements xs of Inl e \<Rightarrow> Inl e | Inr ss \<Rightarrow> Inr (s # ss)))"

text \<open>\<open>s.startsWith(t)\<close> and \<open>s.includes(t)\<close> on strings.\<close>

fun starts_with :: "string \<Rightarrow> string \<Rightarrow> bool" where
  "starts_with s [] = True"
| "starts_with [] (c # t) = False"
| "starts_with (a # s) (c # t) = (a = c \<and> starts_with s t)"

fun includes_str :: "string \<Rightarrow> string \<Rightarrow> bool" where
  "includes_str [] t = (t = [])"
| "includes_str (a # s) t = (starts_with (a # s) t \<or> includes_str s t)"

text \<open>
  The property read \<open>v[k]\<close> (or \<open>v.k\<close>) for the names this program reads by name:
  \<open>function_call\<close>, \<open>content\<close>, \<open>arguments\<close>, \<open>name\<close>, \<open>genre\<close>, \<open>id\<close>. None
  of them is a member of \<open>Object.prototype\<close>, of a primitive or of an array, so the read
  gives the own property of an object, and \<open>undefined\<close> otherwise. Reading a property
  of \<open>undefined\<close> or \<open>null\<close> throws a TypeError.
\<close>

fun js_get :: "jsval \<Rightarrow> string \<Rightarrow> error + jsval" where
  "js_get JUndefined k = Inl TypeError"
| "js_get JNull k = Inl TypeError"
| "js_get (JObj kvs) k = Inr (case map_of kvs k of None \<Rightarrow> JUndefined | Some v \<Rightarrow> v)"
| "js_get v k = Inr JUndefined"

section \<open>The tool registry\<close>

record book =
  id' :: string
  name :: string
  genre :: string
  description :: string

definition db :: "book list" where
  "db =
    [\<lparr>id' = ''a1'', name = ''To Kill a Mockingbird'', genre = ''historical'',
      description = 
        ''Compassionate, dramatic, and deeply moving, \"To Kill A Mockingbird\" takes readers to the roots of human behavior - to innocence and experience, kindness and cruelty, love and hatred, humor and pathos. Now with over 18 million copies in print and translated into forty languages, this regional story by a young Alabama woman claims universal appeal. Harper Lee always considered her book to be a simple love story. Today it is regarded as a masterpiece of American literature.''\<rparr>,
     \<lparr>id' = ''a2'', name = ''All the Light We Cannot See'', genre = ''historical'',
      description = 
        ''In a mining town in Germany, Werner Pfennig, an orphan, grows up with his younger sister, enchanted by a crude radio they find that brings them news and stories from places they have never seen or imagined. Werner becomes an expert at building and fixing these crucial new instruments and is enlisted to use his talent to track down the resistance. Deftly interweaving the lives of Marie-Laure and Werner, Doerr illuminates the ways, against all odds, people try to be good to one another.''\<rparr>,
     \<lparr>id' = ''a3'', name = ''Where the Crawdads Sing'', genre = ''historical'',
      description = 
        ''For years, rumors of the '' @ [CHR 0xE2, CHR 0x80, CHR 0x9C] @ ''Marsh Girl'' @ [CHR 0xE2, CHR 0x80, CHR 0x9D] @ '' haunted Barkley Cove, a quiet fishing village. Kya Clark is barefoot and wild; unfit for polite society. So in late 1969, when the popular Chase Andrews is found dead, locals immediately suspect her.\<newline>\<newline>But Kya is not what they say. A born naturalist with just one day of school, she takes life's lessons from the land, learning the real ways of the world from the dishonest signals of fireflies. But while she has the skills to live in solitude forever, the time comes when she yearns to be touched and loved. Drawn to two young men from town, who are each intrigued by her wild beauty, Kya opens herself to a new and startling world'' @ [CHR 0xE2, CHR 0x80, CHR 0x94] @ ''until the unthinkable happens.''\<rparr>]"

text \<open>A dataset item as the object it is, and the \<open>{name, id}\<close> pair the queries build.\<close>

definition book_object :: "book \<Rightarrow> jsval" where
  "book_object item =
     JObj [(''id'', JStr (id' item)), (''name'', JStr (name item)),
           (''genre'', JStr (genre item)), (''description'', JStr (description item))]"

definition name_id :: "book \<Rightarrow> jsval" where
  "name_id item = JObj [(''name'', JStr (name item)), (''id'', JStr (id' item))]"

text \<open>
  The three handlers. Each is an \<open>async\<close> function: its result is what its promise
  settles to, \<open>Inr\<close> a value or \<open>Inl\<close> an error. Each receives whatever value the
  parsed arguments hold. \<open>item.genre === genre\<close> and \<open>item.id === id\<close> compare a
  string with that value; \<open>item.name.includes(name)\<close> converts it to a string first,
  for every item it tests, and the filter of \<open>search\<close> ends with the error of that
  conversion where it throws. The \<open>!\<close> after \<open>db.find(...)\<close> is erased by the
  compiler: a lookup that finds nothing gives \<open>undefined\<close>.
\<close>

definition list :: "jsval \<Rightarrow> error + jsval" where
  "list g = Inr (JArr (map name_id (filter (\<lambda>item. JStr (genre item) = g) db)))"

fun filter_includes :: "jsval \<Rightarrow> book list \<Rightarrow> error + book list" where
  "filter_includes n [] = Inr []"
| "filter_includes n (item # items) =
     (case ToString n of
        Inl e \<Rightarrow> Inl e
      | Inr s \<Rightarrow>
         (case filter_includes n items of
            Inl e \<Rightarrow> Inl e
          | Inr kept \<Rightarrow> Inr (if includes_str (name item) s then item # kept else kept)))"

definition search :: "jsval \<Rightarrow> error + jsval" where
  "search n =
     (case filter_includes n db of
        Inl e \<Rightarrow> Inl e
      | Inr kept \<Rightarrow> Inr (JArr (map name_id kept)))"

definition get :: "jsval \<Rightarrow> error + jsval" where
  "get i = (case find (\<lambda>item. JStr (id' item) = i) db of
              None \<Rightarrow> Inr JUndefined
            | Some item \<Rightarrow> Inr (book_object item))"

text \<open>
  \<open>callFunction\<close>. \<open>JSON.parse\<close> is a parameter: it takes the text and gives the parsed
  value, or \<open>None\<close> where the text is no JSON (a SyntaxError). Its argument is converted
  to a string first, so an absent \<open>arguments\<close> field is parsed as the text \<open>undefined\<close>.
\<close>

definition callFunction :: "(string \<Rightarrow> jsval option) \<Rightarrow> jsval \<Rightarrow> error + jsval" where
  "callFunction JSON_parse function_call =
     (case js_get function_call ''arguments'' of
        Inl e \<Rightarrow> Inl e
      | Inr a \<Rightarrow>
         (case ToString a of
            Inl e \<Rightarrow> Inl e
          | Inr text \<Rightarrow>
             (case JSON_parse text of
                None \<Rightarrow> Inl SyntaxError
              | Some args \<Rightarrow>
                 (case js_get function_call ''name'' of
                    Inl e \<Rightarrow> Inl e
                  | Inr n \<Rightarrow>
                     if n = JStr ''list'' then
                       (case js_get args ''genre'' of Inl e \<Rightarrow> Inl e | Inr g \<Rightarrow> list g)
                     else if n = JStr ''search'' then
                       (case js_get args ''name'' of Inl e \<Rightarrow> Inl e | Inr s \<Rightarrow> search s)
                     else if n = JStr ''get'' then
                       (case js_get args ''id'' of Inl e \<Rightarrow> Inl e | Inr i \<Rightarrow> get i)
                     else Inl (Error ''No function found'')))))"

section \<open>The stream accumulator\<close>

type_synonym object = "(string \<times> jsval) list"

text \<open>\<open>Object.entries\<close>: the own properties of an object, the indexed elements of an
  array, the indexed characters of a string, nothing for a number or a boolean, and a
  TypeError for \<open>undefined\<close> and \<open>null\<close>. The properties of an object come in the
  order of the association list (that \<open>Object.entries\<close> moves the names that are array
  indices to the front is not modelled; the merge below visits every entry, and what it
  gives for a field does not depend on the order of the other fields).\<close>

fun index_entries :: "nat \<Rightarrow> jsval list \<Rightarrow> object" where
  "index_entries i [] = []"
| "index_entries i (v # vs) = (digits i, v) # index_entries (Suc i) vs"

fun entries :: "jsval \<Rightarrow> error + object" where
  "entries JUndefined = Inl TypeError"
| "entries JNull = Inl TypeError"
| "entries (JBool b) = Inr []"
| "entries (JNum n) = Inr []"
| "entries (JStr s) = Inr (index_entries 0 (map (\<lambda>c. JStr [c]) s))"
| "entries (JArr xs) = Inr (index_entries 0 xs)"
| "entries (JObj kvs) = Inr kvs"

text \<open>The own property \<open>key\<close> of an object, \<open>undefined\<close> where it has none; the
  assignment \<open>acc[key] = v\<close> to an own property, or to a name that no prototype answers,
  is \<open>AList.update\<close>, which overwrites the property where it is or appends it.\<close>

definition obj_get :: "object \<Rightarrow> string \<Rightarrow> jsval" where
  "obj_get acc key = (case map_of acc key of None \<Rightarrow> JUndefined | Some v \<Rightarrow> v)"

text \<open>
  The merge reads \<open>acc[key]\<close> for whatever name the delta carries, so the read goes
  through the prototype of \<open>acc\<close>. \<open>acc\<close> is the copy \<open>{...acc}\<close>, whose prototype is
  \<open>Object.prototype\<close>: where the copy has no own property of that name, eleven names are
  answered by a function of \<open>Object.prototype\<close> and \<open>__proto__\<close> by its accessor, which
  gives \<open>Object.prototype\<close> itself.
\<close>

definition inherited_functions :: "string list" where
  "inherited_functions =
     [''constructor'', ''__defineGetter__'', ''__defineSetter__'', ''hasOwnProperty'',
      ''__lookupGetter__'', ''__lookupSetter__'', ''isPrototypeOf'',
      ''propertyIsEnumerable'', ''toString'', ''valueOf'', ''toLocaleString'']"

datatype property = Value jsval | Function | ObjectPrototype

definition acc_get :: "object \<Rightarrow> string \<Rightarrow> property" where
  "acc_get acc key =
     (case map_of acc key of
        Some v \<Rightarrow> Value v
      | None \<Rightarrow>
         if key \<in> set inherited_functions then Function
         else if key = ''__proto__'' then ObjectPrototype
         else Value JUndefined)"

text \<open>The weight of a delta, for the termination of the merge below; an entry named
  \<open>__proto__\<close> weighs one more than its value.\<close>

fun weight :: "jsval \<Rightarrow> nat" where
  "weight (JStr s) = (if length s \<le> 1 then length s else Suc (length s))"
| "weight (JArr xs) = Suc (sum_list (map weight xs))"
| "weight (JObj kvs) =
     Suc (sum_list (map (\<lambda>kv. weight (snd kv) + (if fst kv = ''__proto__'' then 1 else 0)) kvs))"
| "weight v = 0"

definition entries_weight :: "object \<Rightarrow> nat" where
  "entries_weight es =
     sum_list (map (\<lambda>kv. weight (snd kv) + (if fst kv = ''__proto__'' then 1 else 0)) es)"

lemma entries_weight_simps:
  "entries_weight [] = 0"
  "entries_weight ((k, v) # es) =
     weight v + (if k = ''__proto__'' then 1 else 0) + entries_weight es"
  "weight (JObj kvs) = Suc (entries_weight kvs)"
  by (simp_all add: entries_weight_def)

lemma size_map_of: "map_of acc k = Some v \<Longrightarrow> Suc (size v) < size (JObj acc)"
  by (induction acc) (auto split: if_splits)

lemma digits_chars: "set (digits n) \<subseteq> set ''0123456789''"
proof (induction n rule: digits.induct)
  case (1 n)
  have "''0123456789'' ! k \<in> set ''0123456789''" if "k < 10" for k
    using that by (intro nth_mem) simp
  then have m: "''0123456789'' ! (n mod 10) \<in> set ''0123456789''"
    and l: "n < 10 \<Longrightarrow> ''0123456789'' ! n \<in> set ''0123456789''"
    by simp_all
  show ?case
  proof (cases "n < 10")
    case True
    with l show ?thesis by (subst digits.simps) simp
  next
    case False
    with 1 m show ?thesis by (subst digits.simps) simp
  qed
qed

lemma digits_not_proto: "digits n \<noteq> ''__proto__''"
proof
  assume "digits n = ''__proto__''"
  then have "CHR ''_'' \<in> set (digits n)" by simp
  with digits_chars [of n] show False by auto
qed

lemma weight_index_entries: "entries_weight (index_entries i vs) = sum_list (map weight vs)"
  by (induction vs arbitrary: i) (auto simp: entries_weight_simps digits_not_proto)

lemma weight_chars: "sum_list (map (weight \<circ> (\<lambda>c. JStr [c])) s) = length s"
  by (induction s) auto

lemma length_index_entries: "length (index_entries i vs) = length vs"
  by (induction vs arbitrary: i) auto

lemma index_entries_Nil: "index_entries i vs = [] \<longleftrightarrow> vs = []"
  by (cases vs) auto

text \<open>
  The inner function \<open>reduce\<close> of \<open>messageReducer\<close>, with its loop over the entries of
  the delta as \<open>reduce_entries\<close>. The accumulator is an object: \<open>previous\<close> is a message,
  and the recursive call is guarded by \<open>typeof acc[key] === "object"\<close> and
  \<open>!Array.isArray(acc[key])\<close> behind the test for \<open>null\<close>. The copy \<open>acc = {...acc}\<close>
  is the object itself here, where values are not shared; the store model further down
  keeps the copy and the sharing.

  A name answered by a function of \<open>Object.prototype\<close> passes none of the three tests,
  and the field of the delta is dropped. For \<open>__proto__\<close> the third test holds: the merge
  calls itself on \<open>Object.prototype\<close>, whose copy \<open>{...Object.prototype}\<close> is the empty
  object, and the assignment of the result goes to the accessor, which adds no own
  property to \<open>acc\<close> and makes the result its prototype. Values here have no prototype
  of their own: an object that got one this way is given as its own properties, and a
  later read is answered as by \<open>Object.prototype\<close>.

  It terminates: a delta value is smaller than the delta that holds it, except for a
  string of one character, whose only entry is that string again; there the recursion
  descends into a property of the accumulator. The measure is lexicographic: the weight
  of the delta, the entries still to visit, the size of the accumulator.
\<close>

function (sequential) reduce :: "object \<Rightarrow> jsval \<Rightarrow> error + object"
  and reduce_entries :: "object \<Rightarrow> object \<Rightarrow> error + object" where
  "reduce acc delta =
     (case entries delta of Inl e \<Rightarrow> Inl e | Inr es \<Rightarrow> reduce_entries acc es)"
| "reduce_entries acc [] = Inr acc"
| "reduce_entries acc ((key, value) # es) =
     (case acc_get acc key of
        Value JUndefined \<Rightarrow> reduce_entries (AList.update key value acc) es
      | Value JNull \<Rightarrow> reduce_entries (AList.update key value acc) es
      | Value (JStr s) \<Rightarrow>
         (case value of
            JStr t \<Rightarrow> reduce_entries (AList.update key (JStr (s @ t)) acc) es
          | _ \<Rightarrow> reduce_entries acc es)
      | Value (JObj obj) \<Rightarrow>
         (case reduce obj value of
            Inl e \<Rightarrow> Inl e
          | Inr r \<Rightarrow> reduce_entries (AList.update key (JObj r) acc) es)
      | ObjectPrototype \<Rightarrow>
         (case reduce [] value of
            Inl e \<Rightarrow> Inl e
          | Inr r \<Rightarrow> reduce_entries acc es)
      | _ \<Rightarrow> reduce_entries acc es)"
  by pat_completeness auto

termination
  apply (relation "measures
     [case_sum (\<lambda>(acc, delta). weight delta) (\<lambda>(acc, es). entries_weight es),
      case_sum (\<lambda>(acc, delta). 1) (\<lambda>(acc, es). length es),
      case_sum (\<lambda>(acc, delta). Suc (size (JObj acc))) (\<lambda>(acc, es). size (JObj acc))]")
  apply simp
  subgoal for acc delta es
    by (cases delta)
       (auto simp: weight_index_entries weight_chars length_index_entries
                   index_entries_Nil le_Suc_eq entries_weight_simps
             simp del: weight.simps(3))
  apply (auto simp: acc_get_def entries_weight_simps dest: size_map_of
              split: option.splits if_splits)
  done

subsection \<open>The accumulator in a store\<close>

text \<open>
  Objects and arrays are shared by reference, and \<open>reduce\<close> writes into objects. To say
  what a merge leaves untouched, the same function is modelled over a store: a value is a
  primitive or a reference, a cell holds the own properties of an object or the elements
  of an array, and addresses below \<open>next_free\<close> are the ones allocated. The store keeps
  own properties only: a read that \<open>Object.prototype\<close> answers leads to no write, or to
  writes to a copy made by the call, as every other read does.
\<close>

type_synonym addr = nat

datatype hval = HUndefined | HNull | HBool bool | HNum int | HStr string | HRef addr

datatype cell = Obj "(string \<times> hval) list" | Arr "hval list"

record store =
  cells :: "addr \<Rightarrow> cell"
  next_free :: addr

definition alloc :: "cell \<Rightarrow> store \<Rightarrow> store \<times> addr" where
  "alloc c h =
     (h\<lparr>cells := (cells h)(next_free h := c), next_free := Suc (next_free h)\<rparr>, next_free h)"

fun h_index_entries :: "nat \<Rightarrow> hval list \<Rightarrow> (string \<times> hval) list" where
  "h_index_entries i [] = []"
| "h_index_entries i (v # vs) = (digits i, v) # h_index_entries (Suc i) vs"

text \<open>The own enumerable properties of a cell, as \<open>{...acc}\<close> and \<open>Object.entries\<close>
  read them.\<close>

definition own_entries :: "cell \<Rightarrow> (string \<times> hval) list" where
  "own_entries c = (case c of Obj kvs \<Rightarrow> kvs | Arr xs \<Rightarrow> h_index_entries 0 xs)"

fun h_entries :: "store \<Rightarrow> hval \<Rightarrow> error + (string \<times> hval) list" where
  "h_entries h HUndefined = Inl TypeError"
| "h_entries h HNull = Inl TypeError"
| "h_entries h (HBool b) = Inr []"
| "h_entries h (HNum n) = Inr []"
| "h_entries h (HStr s) = Inr (h_index_entries 0 (map (\<lambda>c. HStr [c]) s))"
| "h_entries h (HRef a) = Inr (own_entries (cells h a))"

definition h_get :: "store \<Rightarrow> addr \<Rightarrow> string \<Rightarrow> hval" where
  "h_get h a key =
     (case map_of (own_entries (cells h a)) key of None \<Rightarrow> HUndefined | Some v \<Rightarrow> v)"

text \<open>The write \<open>acc[key] = v\<close>: the only write of \<open>reduce\<close>.\<close>

definition h_set :: "store \<Rightarrow> addr \<Rightarrow> string \<Rightarrow> hval \<Rightarrow> store" where
  "h_set h a key v =
     h\<lparr>cells := (cells h)(a := Obj (AList.update key v (own_entries (cells h a))))\<rparr>"

text \<open>
  \<open>reduce\<close> over the store. The first argument bounds the depth of the call stack: a
  store can hold a cyclic accumulator, on which the recursion ends with the RangeError
  of an exhausted stack. The result is the store left behind and the reference returned
  or the error thrown. \<open>acc = {...acc}\<close> allocates the copy; the loop writes to it.
\<close>

fun reduce_h :: "nat \<Rightarrow> store \<Rightarrow> addr \<Rightarrow> hval \<Rightarrow> store \<times> (error + addr)"
  and reduce_h_entries ::
    "nat \<Rightarrow> store \<Rightarrow> addr \<Rightarrow> (string \<times> hval) list \<Rightarrow> store \<times> (error + addr)" where
  "reduce_h 0 h acc delta = (h, Inl RangeError)"
| "reduce_h (Suc depth) h acc delta =
     (case alloc (Obj (own_entries (cells h acc))) h of
        (h1, acc') \<Rightarrow>
          (case h_entries h1 delta of
             Inl e \<Rightarrow> (h1, Inl e)
           | Inr es \<Rightarrow> reduce_h_entries depth h1 acc' es))"
| "reduce_h_entries depth h acc [] = (h, Inr acc)"
| "reduce_h_entries depth h acc ((key, value) # es) =
     (case h_get h acc key of
        HUndefined \<Rightarrow> reduce_h_entries depth (h_set h acc key value) acc es
      | HNull \<Rightarrow> reduce_h_entries depth (h_set h acc key value) acc es
      | HStr s \<Rightarrow>
         (case value of
            HStr t \<Rightarrow> reduce_h_entries depth (h_set h acc key (HStr (s @ t))) acc es
          | _ \<Rightarrow> reduce_h_entries depth h acc es)
      | HRef r \<Rightarrow>
         (case cells h r of
            Arr xs \<Rightarrow> reduce_h_entries depth h acc es
          | Obj kvs \<Rightarrow>
             (case reduce_h depth h r value of
                (h', Inl e) \<Rightarrow> (h', Inl e)
              | (h', Inr r') \<Rightarrow>
                  reduce_h_entries depth (h_set h' acc key (HRef r')) acc es))
      | _ \<Rightarrow> reduce_h_entries depth h acc es)"

text \<open>\<open>messageReducer\<close> over the store; \<open>deltas\<close> are the \<open>delta\<close> fields of the
  choices of the chunk.\<close>

definition messageReducer_h :: "nat \<Rightarrow> store \<Rightarrow> addr \<Rightarrow> hval list \<Rightarrow> store \<times> (error + addr)" where
  "messageReducer_h depth h previous deltas =
     (case deltas of
        [] \<Rightarrow> (h, Inl TypeError)
      | d # ds \<Rightarrow> reduce_h depth h previous d)"

subsection \<open>Chunks\<close>

text \<open>A chunk of the stream: its choices, each with a delta and a finish reason.\<close>

record Choice =
  delta :: jsval
  finish_reason :: "string option"

record ChatCompletionChunk =
  choices :: "Choice list"

text \<open>\<open>messageReducer\<close> reads \<open>item.choices[0]!.delta\<close>: with no choice the read of
  \<open>delta\<close> on \<open>undefined\<close> throws.\<close>

definition messageReducer :: "object \<Rightarrow> ChatCompletionChunk \<Rightarrow> error + object" where
  "messageReducer previous item =
     (case choices item of
        [] \<Rightarrow> Inl TypeError
      | c # cs \<Rightarrow> reduce previous (delta c))"

text \<open>The successive merges \<open>message = messageReducer(message, event)\<close> of a list of
  chunks, as the loop of \<open>DraftResponse\<close> makes them; the first error ends them.\<close>

fun accumulate :: "object \<Rightarrow> ChatCompletionChunk list \<Rightarrow> error + object" where
  "accumulate previous [] = Inr previous"
| "accumulate previous (event # events) =
     (case messageReducer previous event of
        Inl e \<Rightarrow> Inl e
      | Inr m \<Rightarrow> accumulate m events)"

subsection \<open>Vocabulary for the properties of the accumulator\<close>

text \<open>The delta that \<open>messageReducer\<close> merges, where the chunk has a choice.\<close>

definition first_delta :: "ChatCompletionChunk \<Rightarrow> jsval" where
  "first_delta item = (case choices item of [] \<Rightarrow> JUndefined | c # cs \<Rightarrow> delta c)"

text \<open>A delta whose top-level fields are all strings.\<close>

definition string_valued :: "jsval \<Rightarrow> bool" where
  "string_valued d =
     (case d of
        JObj kvs \<Rightarrow> list_all (\<lambda>(k, v). case v of JStr s \<Rightarrow> True | _ \<Rightarrow> False) kvs
      | _ \<Rightarrow> False)"

text \<open>A delta none of whose top-level fields is named like a member of
  \<open>Object.prototype\<close>: the fields of plain data, that the merge reads as own properties.\<close>

definition own_names :: "jsval \<Rightarrow> bool" where
  "own_names d =
     (case d of
        JObj kvs \<Rightarrow> list_all (\<lambda>(k, v). k \<notin> set (''__proto__'' # inherited_functions)) kvs
      | _ \<Rightarrow> True)"

text \<open>The fragments that a delta, and a list of chunks, carry for a field, in arrival order.\<close>

definition fragments_of :: "string \<Rightarrow> object \<Rightarrow> string list" where
  "fragments_of key kvs = [s. (k, JStr s) \<leftarrow> kvs, k = key]"

definition fragments :: "string \<Rightarrow> ChatCompletionChunk list \<Rightarrow> string list" where
  "fragments key items =
     concat (map (\<lambda>item. case first_delta item of
                             JObj kvs \<Rightarrow> fragments_of key kvs
                           | _ \<Rightarrow> []) items)"

text \<open>
  The mismatches of type that the merge answers by leaving the field alone: an
  accumulated string against an incoming value that is no string, and an accumulated
  array, number or boolean against any incoming value.
\<close>

definition mismatched :: "jsval \<Rightarrow> jsval \<Rightarrow> bool" where
  "mismatched old v =
     (case old of
        JStr s \<Rightarrow> (case v of JStr t \<Rightarrow> False | _ \<Rightarrow> True)
      | JArr xs \<Rightarrow> True
      | JNum n \<Rightarrow> True
      | JBool b \<Rightarrow> True
      | _ \<Rightarrow> False)"

section \<open>The conversation formatter\<close>

text \<open>A transcript turn and a chat request message have the same shape, a role and a
  content; one record serves both.\<close>

record Utterance =
  role :: string
  content :: string

record RetellRequest =
  response_id :: int
  transcript :: "Utterance list"
  interaction_type :: string

definition beginSentence :: string where
  "beginSentence = 
     ''Hey there, I'm your personal AI librarian, what book can I find for you?''"

text \<open>The agent prompt of the function-calling client, and that of \<open>llm_openai.ts\<close>.\<close>

definition agentPrompt :: string where
  "agentPrompt = 
     ''You are a friendly AI agent that helps users find books. You can list books by genre, search for books by name, and get detailed information about a book by its ID. You can also provide recommendations based on the user's preferences. You should be helpful, engaging, and knowledgeable about books. Remember to ask follow-up questions to keep the conversation going. Let's start!''"

definition agentPrompt_openai :: string where
  "agentPrompt_openai =
     ''Task: As a professional therapist, your responsibilities are comprehensive and patient-centered. You establish a positive and trusting rapport with patients, diagnosing and treating mental health disorders. Your role involves creating tailored treatment plans based on individual patient needs and circumstances. Regular meetings with patients are essential for providing counseling and treatment, and for adjusting plans as needed. You conduct ongoing assessments to monitor patient progress, involve and advise family members when appropriate, and refer patients to external specialists or agencies if required. Keeping thorough records of patient interactions and progress is crucial. You also adhere to all safety protocols and maintain strict client confidentiality. Additionally, you contribute to the practice's overall success by completing related tasks as needed.\<newline>\<newline>Conversational Style: Communicate concisely and conversationally. Aim for responses in short, clear prose, ideally under 10 words. This succinct approach helps in maintaining clarity and focus during patient interactions.\<newline>\<newline>Personality: Your approach should be empathetic and understanding, balancing compassion with maintaining a professional stance on what is best for the patient. It's important to listen actively and empathize without overly agreeing with the patient, ensuring that your professional opinion guides the therapeutic process.''"

text \<open>The content of the system message, ending with the agent prompt of the module.\<close>

definition systemPrompt :: "string \<Rightarrow> string" where
  "systemPrompt agent = 
     ''##Objective\<newline>You are a voice AI agent engaging in a human-like voice conversation with the user. You will respond based on your given instruction and the provided transcript and be as human-like as possible\<newline>\<newline>## Style Guardrails\<newline>- [Be concise] Keep your response succinct, short, and get to the point quickly. Address one question or action item at a time. Don't pack everything you want to say into one utterance.\<newline>- [Do not repeat] Don't repeat what's in the transcript. Rephrase if you have to reiterate a point. Use varied sentence structures and vocabulary to ensure each response is unique and personalized.\<newline>- [Be conversational] Speak like a human as though you're speaking to a close friend -- use everyday language and keep it human-like. Occasionally add filler words, while keeping the prose short. Avoid using big words or sounding too formal.\<newline>- [Reply with emotions]: You have human-like emotions, attitudes, and dispositions. When appropriate: use tone and style to create more engaging and personalized responses; incorporate humor or wit; get emotional or empathetic; apply elements of surprise or suspense to keep the user engaged. Don't be a pushover.\<newline>- [Be proactive] Lead the conversation and do not be passive. Most times, engage users by ending with a question or suggested next step.\<newline>\<newline>## Response Guideline\<newline>- [Overcome ASR errors] This is a real-time transcript, expect there to be errors. If you can guess what the user is trying to say,  then guess and respond. When you must ask for clarification, pretend that you heard the voice and be colloquial (use phrases like \"didn't catch that\", \"some noise\", \"pardon\", \"you're coming through choppy\", \"static in your speech\", \"voice is cutting in and out\"). Do not ever mention \"transcription error\", and don't repeat yourself.\<newline>- [Always stick to your role] Think about what your role can and cannot do. If your role cannot do something, try to steer the conversation back to the goal of the conversation and to your role. Don't repeat yourself in doing this. You should still be creative, human-like, and lively.\<newline>- [Create smooth conversation] Your response should both fit your role and fit into the live calling session to create a human-like conversation. You respond directly to what the user just said.\<newline>\<newline>## Role\<newline>'' @ agent"

text \<open>The loop of \<open>ConversationToChatRequestMessages\<close>, pushing one message per turn.\<close>

fun push_turns :: "Utterance list \<Rightarrow> Utterance list \<Rightarrow> Utterance list" where
  "push_turns result [] = result"
| "push_turns result (turn # conversation) =
     push_turns
       (result @ [\<lparr>role = (if role turn = ''agent'' then ''assistant'' else ''user''),
                   content = Utterance.content turn\<rparr>])
       conversation"

definition ConversationToChatRequestMessages :: "Utterance list \<Rightarrow> Utterance list" where
  "ConversationToChatRequestMessages conversation = push_turns [] conversation"

text \<open>The loop of \<open>PreparePrompt\<close> that pushes the converted transcript;
  \<open>PreparePrompt\<close> itself takes the agent prompt of its module.\<close>

fun push_all :: "Utterance list \<Rightarrow> Utterance list \<Rightarrow> Utterance list" where
  "push_all requestMessages [] = requestMessages"
| "push_all requestMessages (m # ms) = push_all (requestMessages @ [m]) ms"

definition PreparePrompt :: "string \<Rightarrow> RetellRequest \<Rightarrow> Utterance list" where
  "PreparePrompt agent request =
     (let transcript' = ConversationToChatRequestMessages (transcript request);
          requestMessages = push_all [\<lparr>role = ''system'', content = systemPrompt agent\<rparr>] transcript'
      in if interaction_type request = ''reminder_required''
         then requestMessages @
              [\<lparr>role = ''user'',
                content = ''(Now the user has not responded in a while, you would say:)''\<rparr>]
         else requestMessages)"

section \<open>The response drafting engine\<close>

text \<open>A frame sent on the socket: the object passed to \<open>ws.send\<close> (as its JSON text).\<close>

record RetellResponse =
  response_id :: int
  content :: jsval
  content_complete :: bool
  end_call :: bool

definition BeginMessage :: "RetellResponse list" where
  "BeginMessage =
     [\<lparr>RetellResponse.response_id = 0, content = JStr beginSentence,
       content_complete = True, end_call = False\<rparr>]"

text \<open>
  What the provider does with a request: the call \<open>create\<close> fails, or it gives a stream
  that yields finitely many chunks and then ends, or throws in place of a next chunk.
\<close>

datatype completion =
    CreateFails error
  | Events "ChatCompletionChunk list" "error option"

text \<open>The local variables of \<open>DraftResponse\<close> that the loop changes, and the frames sent
  so far: \<open>completeMessage\<close> and the frames for both clients, the accumulated message and
  the two variables of the tool call for the function-calling client.\<close>

record stream_state =
  completeMessage :: string
  sent :: "RetellResponse list"

record draft_state = stream_state +
  message :: object
  funcCall :: jsval
  executeFunction :: bool

definition initial_state :: draft_state where
  "initial_state =
     \<lparr>completeMessage = [], sent = [], message = [], funcCall = JNull,
      executeFunction = False\<rparr>"

definition partial_frame :: "int \<Rightarrow> jsval \<Rightarrow> RetellResponse" where
  "partial_frame rid text =
     \<lparr>RetellResponse.response_id = rid, content = text,
      content_complete = False, end_call = False\<rparr>"

text \<open>
  The body of the loop for one chunk: the state it leaves, and the error it throws if it
  throws. \<open>completeMessage += delta.content\<close> converts the content to a string; where
  that throws, the frame of the chunk is not sent.
\<close>

definition on_event :: "int \<Rightarrow> draft_state \<Rightarrow> ChatCompletionChunk \<Rightarrow> draft_state \<times> error option" where
  "on_event rid st event =
     (case messageReducer (message st) event of
        Inl e \<Rightarrow> (st, Some e)
      | Inr m \<Rightarrow>
         (let st1 = st\<lparr>message := m\<rparr> in
          case choices event of
            [] \<Rightarrow> (st1, None)
          | c # cs \<Rightarrow>
             if finish_reason c = Some ''function_call'' then
               (st1\<lparr>funcCall := obj_get m ''function_call'', executeFunction := True\<rparr>, None)
             else if \<not> truthy (delta c) then (st1, None)
             else
               (case js_get (delta c) ''content'' of
                  Inl e \<Rightarrow> (st1, Some e)
                | Inr text \<Rightarrow>
                   if \<not> truthy text then (st1, None)
                   else
                     (case ToString text of
                        Inl e \<Rightarrow> (st1, Some e)
                      | Inr s \<Rightarrow>
                         (st1\<lparr>completeMessage := completeMessage st1 @ s,
                               sent := sent st1 @ [partial_frame rid text]\<rparr>, None)))))"

text \<open>The loop \<open>for await (const event of events)\<close>: \<open>fin\<close> is what the stream does after
  its last chunk.\<close>

fun for_await ::
  "int \<Rightarrow> draft_state \<Rightarrow> ChatCompletionChunk list \<Rightarrow> error option \<Rightarrow> draft_state \<times> error option" where
  "for_await rid st [] fin = (st, fin)"
| "for_await rid st (event # events) fin =
     (case on_event rid st event of
        (st', Some e) \<Rightarrow> (st', Some e)
      | (st', None) \<Rightarrow> for_await rid st' events fin)"

text \<open>The \<open>try\<close> block: the state at its end, and the error handed to \<open>catch\<close>, if any.\<close>

definition try_block :: "int \<Rightarrow> completion \<Rightarrow> draft_state \<times> error option" where
  "try_block rid c =
     (case c of
        CreateFails e \<Rightarrow> (initial_state, Some e)
      | Events events fin \<Rightarrow> for_await rid initial_state events fin)"

text \<open>
  What one call of \<open>DraftResponse\<close> does: the frames sent in order, the errors printed
  by \<open>console.error\<close>, whether the returned promise is rejected and with what, and the
  field \<open>lastPrintedUserMessage\<close> afterwards.
\<close>

record outcome =
  frames :: "RetellResponse list"
  console_error :: "error list"
  rejected :: "error option"
  lastPrinted :: "string option"

definition lastUserMessage :: "Utterance list \<Rightarrow> Utterance option" where
  "lastUserMessage ts =
     (case filter (\<lambda>utterance. role utterance = ''user'') ts of
        [] \<Rightarrow> None
      | u # us \<Rightarrow> Some (last (u # us)))"

definition update_printed :: "string option \<Rightarrow> RetellRequest \<Rightarrow> string option" where
  "update_printed lastPrintedUserMessage request =
     (case lastUserMessage (transcript request) of
        None \<Rightarrow> lastPrintedUserMessage
      | Some u \<Rightarrow>
         if Some (Utterance.content u) \<noteq> lastPrintedUserMessage
         then Some (Utterance.content u) else lastPrintedUserMessage)"

definition tool_frame :: "(jsval \<Rightarrow> string option) \<Rightarrow> int \<Rightarrow> jsval \<Rightarrow> RetellResponse" where
  "tool_frame JSON_stringify rid result =
     \<lparr>RetellResponse.response_id = rid,
      content = JStr (''The function call result is: '' @
                      (case JSON_stringify result of None \<Rightarrow> ''undefined'' | Some s \<Rightarrow> s)),
      content_complete = False, end_call = False\<rparr>"

definition terminal_frame :: "int \<Rightarrow> RetellResponse" where
  "terminal_frame rid =
     \<lparr>RetellResponse.response_id = rid, content = JStr [],
      content_complete = True, end_call = False\<rparr>"

text \<open>
  \<open>DraftResponse\<close> of the function-calling client. \<open>JSON.parse\<close>, \<open>JSON.stringify\<close>
  (\<open>None\<close> where it gives \<open>undefined\<close>) and the provider's \<open>create\<close> are parameters.
  \<open>ws.send\<close> appends to the frames and does not fail.
\<close>

definition DraftResponse ::
  "(string \<Rightarrow> jsval option) \<Rightarrow> (jsval \<Rightarrow> string option) \<Rightarrow> (Utterance list \<Rightarrow> completion) \<Rightarrow>
   string option \<Rightarrow> RetellRequest \<Rightarrow> outcome" where
  "DraftResponse JSON_parse JSON_stringify create lastPrintedUserMessage request =
     (let printed = update_printed lastPrintedUserMessage request;
          rid = RetellRequest.response_id request
      in if interaction_type request = ''update_only'' then
           \<lparr>frames = [], console_error = [], rejected = None, lastPrinted = printed\<rparr>
         else
           (case try_block rid (create (PreparePrompt agentPrompt request)) of
              (st, thrown) \<Rightarrow>
                (let logged = (case thrown of None \<Rightarrow> [] | Some err \<Rightarrow> [err]) in
                 if truthy (funcCall st) then
                   (case callFunction JSON_parse (funcCall st) of
                      Inl e \<Rightarrow>
                        \<lparr>frames = sent st, console_error = logged,
                         rejected = Some e, lastPrinted = printed\<rparr>
                    | Inr result \<Rightarrow>
                        \<lparr>frames = sent st @ [tool_frame JSON_stringify rid result],
                         console_error = logged, rejected = None, lastPrinted = printed\<rparr>)
                 else
                   \<lparr>frames = sent st @ [terminal_frame rid], console_error = logged,
                    rejected = None, lastPrinted = printed\<rparr>)))"

text \<open>
  \<open>DraftResponse\<close> of the client without tools (\<open>llm_openai.ts\<close>): no accumulated
  message, no tool call; the loop body only forwards content.
\<close>

definition initial_stream_state :: stream_state where
  "initial_stream_state = \<lparr>completeMessage = [], sent = []\<rparr>"

definition on_event_openai :: "int \<Rightarrow> stream_state \<Rightarrow> ChatCompletionChunk \<Rightarrow> stream_state \<times> error option" where
  "on_event_openai rid st event =
     (case choices event of
        [] \<Rightarrow> (st, None)
      | c # cs \<Rightarrow>
         if \<not> truthy (delta c) then (st, None)
         else
           (case js_get (delta c) ''content'' of
              Inl e \<Rightarrow> (st, Some e)
            | Inr text \<Rightarrow>
               if \<not> truthy text then (st, None)
               else
                 (case ToString text of
                    Inl e \<Rightarrow> (st, Some e)
                  | Inr s \<Rightarrow>
                     (st\<lparr>completeMessage := completeMessage st @ s,
                         sent := sent st @ [partial_frame rid text]\<rparr>, None))))"

fun for_await_openai ::
  "int \<Rightarrow> stream_state \<Rightarrow> ChatCompletionChunk list \<Rightarrow> error option \<Rightarrow> stream_state \<times> error option" where
  "for_await_openai rid st [] fin = (st, fin)"
| "for_await_openai rid st (event # events) fin =
     (case on_event_openai rid st event of
        (st', Some e) \<Rightarrow> (st', Some e)
      | (st', None) \<Rightarrow> for_await_openai rid st' events fin)"

definition try_block_openai :: "int \<Rightarrow> completion \<Rightarrow> stream_state \<times> error option" where
  "try_block_openai rid c =
     (case c of
        CreateFails e \<Rightarrow> (initial_stream_state, Some e)
      | Events events fin \<Rightarrow> for_await_openai rid initial_stream_state events fin)"

definition DraftResponse_openai ::
  "(Utterance list \<Rightarrow> completion) \<Rightarrow> string option \<Rightarrow> RetellRequest \<Rightarrow> outcome" where
  "DraftResponse_openai create lastPrintedUserMessage request =
     (let printed = update_printed lastPrintedUserMessage request;
          rid = RetellRequest.response_id request
      in if interaction_type request = ''update_only'' then
           \<lparr>frames = [], console_error = [], rejected = None, lastPrinted = printed\<rparr>
         else
           (case try_block_openai rid (create (PreparePrompt agentPrompt_openai request)) of
              (st, thrown) \<Rightarrow>
                \<lparr>frames = sent st @ [terminal_frame rid],
                 console_error = (case thrown of None \<Rightarrow> [] | Some err \<Rightarrow> [err]),
                 rejected = None, lastPrinted = printed\<rparr>))"

section \<open>Vocabulary of the properties\<close>

subsection \<open>Accumulation of string-valued deltas\<close>

text \<open>An object with string fields only, and a value extended by a list of fragments:
  the invariant and the result of the accumulation of string-valued deltas.\<close>

definition strings_only :: "object \<Rightarrow> bool" where
  "strings_only acc = list_all (\<lambda>(k, v). case v of JStr s \<Rightarrow> True | _ \<Rightarrow> False) acc"

definition appended :: "jsval \<Rightarrow> string list \<Rightarrow> jsval" where
  "appended old fs =
     (if fs = [] then old else JStr ((case old of JStr a \<Rightarrow> a | _ \<Rightarrow> []) @ concat fs))"

subsection \<open>What a run leaves of a store\<close>

text \<open>What a run leaves of the store it started from: every allocated cell, or every
  allocated cell but one.\<close>

definition preserved :: "store \<Rightarrow> store \<Rightarrow> bool" where
  "preserved h h' =
     (next_free h \<le> next_free h' \<and> (\<forall>a<next_free h. cells h' a = cells h a))"

definition preserved_but :: "addr \<Rightarrow> store \<Rightarrow> store \<Rightarrow> bool" where
  "preserved_but acc h h' =
     (next_free h \<le> next_free h' \<and>
      (\<forall>a<next_free h. a \<noteq> acc \<longrightarrow> cells h' a = cells h a))"

subsection \<open>The formatter\<close>

text \<open>The message pushed for a turn.\<close>

definition chat_message :: "Utterance \<Rightarrow> Utterance" where
  "chat_message turn =
     \<lparr>role = (if role turn = ''agent'' then ''assistant'' else ''user''),
      content = Utterance.content turn\<rparr>"

subsection \<open>The drafting cycle\<close>

text \<open>The \<open>try\<close> block of the cycle that \<open>DraftResponse\<close> runs for a request: the state
  it ends in, and the error it hands to \<open>catch\<close>.\<close>

definition drafting :: "(Utterance list \<Rightarrow> completion) \<Rightarrow> RetellRequest \<Rightarrow> draft_state \<times> error option" where
  "drafting create request =
     try_block (RetellRequest.response_id request) (create (PreparePrompt agentPrompt request))"

text \<open>The same for the client without tools.\<close>

definition drafting_openai :: "(Utterance list \<Rightarrow> completion) \<Rightarrow> RetellRequest \<Rightarrow> stream_state \<times> error option" where
  "drafting_openai create request =
     try_block_openai (RetellRequest.response_id request)
       (create (PreparePrompt agentPrompt_openai request))"

text \<open>A chunk whose content, if its delta has one, can be converted to a string: a string,
  a number, a boolean, \<open>null\<close>, no content at all, or an array or object without a
  \<open>toString\<close> of its own inside.\<close>

definition content_converts :: "ChatCompletionChunk \<Rightarrow> bool" where
  "content_converts event =
     (case js_get (first_delta event) ''content'' of
        Inl e \<Rightarrow> True
      | Inr text \<Rightarrow> (case ToString text of Inl e \<Rightarrow> False | Inr s \<Rightarrow> True))"

text \<open>A chunk that signals a tool invocation: the test of the loop on its first choice.\<close>

definition signals_tool_call :: "ChatCompletionChunk \<Rightarrow> bool" where
  "signals_tool_call event =
     (case choices event of
        [] \<Rightarrow> False
      | c # cs \<Rightarrow> finish_reason c = Some ''function_call'')"

text \<open>Two invariants of the loop: the frames it sends are partial, and \<open>funcCall\<close> is
  still \<open>null\<close> as long as \<open>executeFunction\<close> is false.\<close>

definition partial_only :: "RetellResponse list \<Rightarrow> bool" where
  "partial_only fs = list_all (\<lambda>f. \<not> content_complete f) fs"

definition flag_inv :: "draft_state \<Rightarrow> bool" where
  "flag_inv st = (executeFunction st \<or> funcCall st = JNull)"

section \<open>Example inputs\<close>

text \<open>Three chunks with string-valued deltas.\<close>

definition example_chunks :: "ChatCompletionChunk list" where
  "example_chunks =
     [\<lparr>choices = [\<lparr>delta = JObj [(''role'', JStr ''assistant''), (''content'', JStr [])],
                   finish_reason = None\<rparr>]\<rparr>,
      \<lparr>choices = [\<lparr>delta = JObj [(''content'', JStr ''Hi'')], finish_reason = None\<rparr>]\<rparr>,
      \<lparr>choices = [\<lparr>delta = JObj [(''content'', JStr '' there'')], finish_reason = None\<rparr>]\<rparr>]"

text \<open>A chunk whose delta has two string-valued fields, one of them named like a member
  of \<open>Object.prototype\<close>.\<close>

definition constructor_chunk :: ChatCompletionChunk where
  "constructor_chunk =
     \<lparr>choices = [\<lparr>delta = JObj [(''content'', JStr ''Hi''), (''constructor'', JStr ''x'')],
                  finish_reason = None\<rparr>]\<rparr>"

text \<open>A store with an accumulated message at address 1, its nested \<open>function_call\<close>
  object at address 0, and at address 3 a delta that extends the name and the arguments
  of the call; the same message and delta as values.\<close>

definition example_store :: store where
  "example_store =
     \<lparr>cells = (\<lambda>a. Obj [])
        (0 := Obj [(''name'', HStr ''li''), (''arguments'', HStr [])],
         1 := Obj [(''role'', HStr ''assistant''), (''function_call'', HRef 0)],
         2 := Obj [(''name'', HStr ''st''), (''arguments'', HStr ''{'')],
         3 := Obj [(''function_call'', HRef 2)]),
      next_free = 4\<rparr>"

definition example_message :: object where
  "example_message =
     [(''role'', JStr ''assistant''),
      (''function_call'', JObj [(''name'', JStr ''li''), (''arguments'', JStr [])])]"

definition example_delta :: jsval where
  "example_delta =
     JObj [(''function_call'', JObj [(''name'', JStr ''st''), (''arguments'', JStr ''{'')])]"

text \<open>Two requests: a reminder after two turns, and a first question of the user.\<close>

definition example_request :: RetellRequest where
  "example_request =
     \<lparr>RetellRequest.response_id = 7,
      transcript = [\<lparr>role = ''agent'', content = ''Hello''\<rparr>,
                    \<lparr>role = ''user'', content = ''find me a historical book''\<rparr>],
      interaction_type = ''reminder_required''\<rparr>"

definition normal_request :: RetellRequest where
  "normal_request =
     \<lparr>RetellRequest.response_id = 7,
      transcript = [\<lparr>role = ''user'', content = ''find me a historical book''\<rparr>],
      interaction_type = ''response_required''\<rparr>"

text \<open>Chunks: one that carries content, one that carries a piece of a function call,
  one that only carries a finish reason.\<close>

definition content_chunk :: "string \<Rightarrow> ChatCompletionChunk" where
  "content_chunk s =
     \<lparr>choices = [\<lparr>delta = JObj [(''content'', JStr s)], finish_reason = None\<rparr>]\<rparr>"

definition call_chunk :: "string \<Rightarrow> string \<Rightarrow> ChatCompletionChunk" where
  "call_chunk n a =
     \<lparr>choices = [\<lparr>delta = JObj [(''function_call'',
                                   JObj [(''name'', JStr n), (''arguments'', JStr a)])],
                  finish_reason = None\<rparr>]\<rparr>"

definition finish_chunk :: "string \<Rightarrow> ChatCompletionChunk" where
  "finish_chunk reason = \<lparr>choices = [\<lparr>delta = JObj [], finish_reason = Some reason\<rparr>]\<rparr>"

text \<open>A stand-in for \<open>JSON.parse\<close> that knows two texts, and one for
  \<open>JSON.stringify\<close> that renders every value but \<open>undefined\<close> the same way.\<close>

definition parse_example :: "string \<Rightarrow> jsval option" where
  "parse_example s =
     (if s = ''{\"genre\":\"historical\"}'' then Some (JObj [(''genre'', JStr ''historical'')])
      else if s = ''{}'' then Some (JObj [])
      else None)"

definition stringify_example :: "jsval \<Rightarrow> string option" where
  "stringify_example v = (case v of JUndefined \<Rightarrow> None | _ \<Rightarrow> Some ''[...]'')"

section \<open>Properties of the tool registry\<close>

lemma includes_str_empty: "includes_str s [] = True"
  by (cases s) simp_all

lemma db_ids: "map id' db = [''a1'', ''a2'', ''a3'']"
  by (simp add: db_def)

lemma db_names:
  "map name_id db =
     [JObj [(''name'', JStr ''To Kill a Mockingbird''), (''id'', JStr ''a1'')],
      JObj [(''name'', JStr ''All the Light We Cannot See''), (''id'', JStr ''a2'')],
      JObj [(''name'', JStr ''Where the Crawdads Sing''), (''id'', JStr ''a3'')]]"
  by (simp add: db_def name_id_def)

lemma find_absent: "\<forall>x\<in>set xs. \<not> P x \<Longrightarrow> find P xs = None"
  by (induction xs) auto

text \<open>The handler \<open>search\<close> fails where its argument cannot be converted to a
  string: the dataset is not empty, and the test of its first item throws.\<close>

lemma search_fails: "ToString n = Inl e \<Longrightarrow> search n = Inl e"
  by (simp add: search_def db_def)

lemma search_succeeds:
  "ToString n = Inr s \<Longrightarrow>
   search n = Inr (JArr (map name_id (filter (\<lambda>item. includes_str (name item) s) db)))"
proof -
  assume n: "ToString n = Inr s"
  have "filter_includes n items = Inr (filter (\<lambda>item. includes_str (name item) s) items)"
    for items
    using n by (induction items) simp_all
  then show ?thesis by (simp add: search_def)
qed

text \<open>The ways \<open>callFunction\<close> fails: the arguments are no JSON text, the parsed
  arguments are \<open>null\<close>, no handler has the name, or the handler fails.\<close>

lemma callFunction_unparsable:
  "js_get function_call ''arguments'' = Inr a \<Longrightarrow> ToString a = Inr text \<Longrightarrow>
   JSON_parse text = None \<Longrightarrow>
   callFunction JSON_parse function_call = Inl SyntaxError"
  by (simp add: callFunction_def)

lemma callFunction_null_arguments:
  "js_get function_call ''arguments'' = Inr a \<Longrightarrow> ToString a = Inr text \<Longrightarrow>
   JSON_parse text = Some JNull \<Longrightarrow>
   js_get function_call ''name'' = Inr n \<Longrightarrow>
   n \<in> {JStr ''list'', JStr ''search'', JStr ''get''} \<Longrightarrow>
   callFunction JSON_parse function_call = Inl TypeError"
  by (auto simp: callFunction_def)

lemma callFunction_unknown_tool:
  "js_get function_call ''arguments'' = Inr a \<Longrightarrow> ToString a = Inr text \<Longrightarrow>
   JSON_parse text = Some args \<Longrightarrow>
   js_get function_call ''name'' = Inr n \<Longrightarrow>
   n \<notin> {JStr ''list'', JStr ''search'', JStr ''get''} \<Longrightarrow>
   callFunction JSON_parse function_call = Inl (Error ''No function found'')"
  by (simp add: callFunction_def)

lemma callFunction_search_fails:
  "js_get function_call ''arguments'' = Inr a \<Longrightarrow> ToString a = Inr text \<Longrightarrow>
   JSON_parse text = Some args \<Longrightarrow>
   js_get function_call ''name'' = Inr (JStr ''search'') \<Longrightarrow>
   js_get args ''name'' = Inr n \<Longrightarrow> ToString n = Inl e \<Longrightarrow>
   callFunction JSON_parse function_call = Inl e"
  by (simp add: callFunction_def search_fails)

text \<open>
  C10. The \<open>search\<close> handler called with the empty string returns the \<open>{name, id}\<close>
  pair of every book of the dataset, in the order of the dataset: every name includes
  the empty string.
\<close>

theorem search_empty_name:
  "search (JStr []) = Inr (JArr (map name_id db)) \<and>
   map name_id db =
     [JObj [(''name'', JStr ''To Kill a Mockingbird''), (''id'', JStr ''a1'')],
      JObj [(''name'', JStr ''All the Light We Cannot See''), (''id'', JStr ''a2'')],
      JObj [(''name'', JStr ''Where the Crawdads Sing''), (''id'', JStr ''a3'')]]"
  by (simp add: search_succeeds includes_str_empty db_names)

text \<open>
  C8, as the code has it. For an id string that matches no book, \<open>get\<close> does not fail:
  its promise resolves to \<open>undefined\<close>.
\<close>

theorem get_unknown_id: "i \<notin> set (map id' db) \<Longrightarrow> get (JStr i) = Inr JUndefined"
proof -
  assume "i \<notin> set (map id' db)"
  then have "\<forall>item\<in>set db. \<not> JStr (id' item) = JStr i" by auto
  then have "find (\<lambda>item. JStr (id' item) = JStr i) db = None" by (rule find_absent)
  then show ?thesis by (simp add: get_def)
qed

theorem get_unknown_id_witness:
  "''zz'' \<notin> set (map id' db) \<and> get (JStr ''zz'') = Inr JUndefined"
  using get_unknown_id [of "''zz''"] by (simp add: db_ids)

text \<open>
  C8 as stated fails: the id \<open>a9\<close> matches no book, \<open>get\<close> raises no error for it, and
  \<open>callFunction\<close> hands \<open>undefined\<close> on as the result of the tool.
\<close>

theorem get_unknown_id_counterexample:
  "''a9'' \<notin> set (map id' db) \<and> \<not> (\<exists>e. get (JStr ''a9'') = Inl e) \<and>
   callFunction (\<lambda>s. Some (JObj [(''id'', JStr ''a9'')]))
     (JObj [(''name'', JStr ''get''), (''arguments'', JStr ''{\"id\":\"a9\"}'')]) = Inr JUndefined"
  by (simp add: get_def callFunction_def db_def)

section \<open>Properties of the stream accumulator\<close>

lemma obj_get_update:
  "obj_get (AList.update k v acc) k' = (if k' = k then v else obj_get acc k')"
  by (simp add: obj_get_def update_conv')

text \<open>The read of the merge, where the copy has the property or the name is none that
  \<open>Object.prototype\<close> answers.\<close>

lemma acc_get_own: "map_of acc key = Some v \<Longrightarrow> acc_get acc key = Value v"
  by (simp add: acc_get_def)

lemma acc_get_plain:
  "key \<notin> set (''__proto__'' # inherited_functions) \<Longrightarrow> acc_get acc key = Value (obj_get acc key)"
  by (simp add: acc_get_def obj_get_def split: option.splits)

lemma mismatched_own:
  "mismatched (obj_get acc key) v \<Longrightarrow> acc_get acc key = Value (obj_get acc key)"
  by (auto simp: mismatched_def obj_get_def acc_get_def split: option.splits)

text \<open>A field whose incoming values are all mismatched keeps its value through the loop.\<close>

lemma reduce_entries_mismatch:
  "reduce_entries acc es = Inr r \<Longrightarrow>
   \<forall>v. (key, v) \<in> set es \<longrightarrow> mismatched (obj_get acc key) v \<Longrightarrow>
   obj_get r key = obj_get acc key"
proof (induction es arbitrary: acc)
  case Nil
  then show ?case by simp
next
  case (Cons kv es)
  obtain k v where kv: "kv = (k, v)" by (cases kv)
  show ?case
  proof (cases "k = key")
    case True
    with Cons.prems(2) kv have m: "mismatched (obj_get acc key) v" by simp
    then have "reduce_entries acc ((k, v) # es) = reduce_entries acc es"
      using True mismatched_own [OF m]
      by (auto simp: mismatched_def split: jsval.splits)
    with Cons.prems kv have "reduce_entries acc es = Inr r" by simp
    then show ?thesis using Cons.prems(2) by (intro Cons.IH) auto
  next
    case False
    have "\<exists>acc'. reduce_entries acc' es = Inr r \<and> obj_get acc' key = obj_get acc key"
      using Cons.prems(1) False unfolding kv
      by (auto simp: obj_get_update split: property.splits jsval.splits sum.splits)
    then obtain acc' where
      a: "reduce_entries acc' es = Inr r" "obj_get acc' key = obj_get acc key"
      by blast
    from Cons.prems(2) a(2)
    have "\<forall>v. (key, v) \<in> set es \<longrightarrow> mismatched (obj_get acc' key) v"
      by simp
    from Cons.IH[OF a(1) this] a(2) show ?thesis by simp
  qed
qed

text \<open>
  C4, as the code has it. Where a field present in the delta meets an accumulated string
  and is no string itself, or meets an accumulated array, number or boolean, the merge
  by \<open>messageReducer\<close> leaves the accumulated value of that field as it was. (An
  accumulated object that is no array is not among these cases: the merge recurses into
  it whatever the incoming value is.)
\<close>

theorem mismatch_keeps_field:
  assumes "messageReducer previous item = Inr r"
    and "first_delta item = JObj kvs"
    and "(key, v) \<in> set kvs"
    and "\<forall>v. (key, v) \<in> set kvs \<longrightarrow> mismatched (obj_get previous key) v"
  shows "obj_get r key = obj_get previous key"
proof -
  from assms(2) obtain c cs where c: "choices item = c # cs" "delta c = JObj kvs"
    by (auto simp: first_delta_def split: list.splits)
  with assms(1) have "reduce_entries previous kvs = Inr r"
    by (simp add: messageReducer_def)
  then show ?thesis using assms(4) by (rule reduce_entries_mismatch)
qed

theorem mismatch_keeps_field_witness:
  "messageReducer [(''content'', JStr ''Hi'')]
     \<lparr>choices = [\<lparr>delta = JObj [(''content'', JObj [(''x'', JNum 1)]),
                                  (''role'', JStr ''assistant'')],
                  finish_reason = None\<rparr>]\<rparr>
     = Inr [(''content'', JStr ''Hi''), (''role'', JStr ''assistant'')] \<and>
   mismatched (JStr ''Hi'') (JObj [(''x'', JNum 1)]) \<and>
   obj_get [(''content'', JStr ''Hi''), (''role'', JStr ''assistant'')] ''content'' =
     obj_get [(''content'', JStr ''Hi'')] ''content''"
proof -
  let ?item = "\<lparr>choices = [\<lparr>delta = JObj [(''content'', JObj [(''x'', JNum 1)]),
                                          (''role'', JStr ''assistant'')],
                          finish_reason = None\<rparr>]\<rparr>"
  let ?kvs = "[(''content'', JObj [(''x'', JNum 1)]), (''role'', JStr ''assistant'')]"
  have r: "messageReducer [(''content'', JStr ''Hi'')] ?item
             = Inr [(''content'', JStr ''Hi''), (''role'', JStr ''assistant'')]"
    by (simp add: messageReducer_def acc_get_def inherited_functions_def)
  have d: "first_delta ?item = JObj ?kvs"
    by (simp add: first_delta_def)
  have p: "(''content'', JObj [(''x'', JNum 1)]) \<in> set ?kvs"
    by simp
  have m: "mismatched (JStr ''Hi'') (JObj [(''x'', JNum 1)])"
    by (simp add: mismatched_def)
  have a: "\<forall>v. (''content'', v) \<in> set ?kvs \<longrightarrow>
             mismatched (obj_get [(''content'', JStr ''Hi'')] ''content'') v"
    by (simp add: mismatched_def obj_get_def)
  from mismatch_keeps_field [OF r d p a] r m show ?thesis by simp
qed

text \<open>
  C4 as stated fails where the accumulated value is an object and the incoming value a
  string: the merge recurses into the object and adds the characters of the string as
  indexed fields, so the accumulated value of the field changes.
\<close>

theorem mismatch_keeps_field_counterexample:
  "messageReducer [(''function_call'', JObj [(''name'', JStr ''get'')])]
     \<lparr>choices = [\<lparr>delta = JObj [(''function_call'', JStr ''hi'')],
                  finish_reason = None\<rparr>]\<rparr>
     = Inr [(''function_call'',
             JObj [(''name'', JStr ''get''), (''0'', JStr ''h''), (''1'', JStr ''i'')])] \<and>
   obj_get [(''function_call'',
             JObj [(''name'', JStr ''get''), (''0'', JStr ''h''), (''1'', JStr ''i'')])]
       ''function_call''
     \<noteq> obj_get [(''function_call'', JObj [(''name'', JStr ''get'')])] ''function_call''"
  by (simp add: messageReducer_def obj_get_def acc_get_def inherited_functions_def
                digits.simps)

lemma appended_appended: "appended (appended old fs) gs = appended old (fs @ gs)"
  by (simp add: appended_def)

lemma strings_only_get:
  "strings_only acc \<Longrightarrow> obj_get acc k = JUndefined \<or> (\<exists>s. obj_get acc k = JStr s)"
  by (induction acc) (auto simp: strings_only_def obj_get_def split: jsval.splits)

lemma strings_only_update:
  "strings_only acc \<Longrightarrow> strings_only (AList.update k (JStr s) acc)"
  by (induction acc) (auto simp: strings_only_def)

lemma reduce_entries_string:
  "strings_only acc \<Longrightarrow> k \<notin> set (''__proto__'' # inherited_functions) \<Longrightarrow>
   reduce_entries acc ((k, JStr t) # es) =
     reduce_entries
       (AList.update k (JStr ((case obj_get acc k of JStr a \<Rightarrow> a | _ \<Rightarrow> []) @ t)) acc) es"
  using strings_only_get [of acc k] acc_get_plain [of k acc] by auto

lemma reduce_entries_strings:
  "strings_only acc \<Longrightarrow> strings_only es \<Longrightarrow>
   list_all (\<lambda>(k, v). k \<notin> set (''__proto__'' # inherited_functions)) es \<Longrightarrow>
   \<exists>m. reduce_entries acc es = Inr m \<and> strings_only m \<and>
       (\<forall>key. obj_get m key = appended (obj_get acc key) (fragments_of key es))"
proof (induction es arbitrary: acc)
  case Nil
  then show ?case by (simp add: appended_def fragments_of_def)
next
  case (Cons kv es)
  from Cons.prems(2) obtain k t where kv: "kv = (k, JStr t)" and es: "strings_only es"
    by (cases kv) (auto simp: strings_only_def split: jsval.splits)
  from Cons.prems(3) kv
  have k: "k \<notin> set (''__proto__'' # inherited_functions)"
    and ks: "list_all (\<lambda>(k, v). k \<notin> set (''__proto__'' # inherited_functions)) es"
    by simp_all
  let ?a = "case obj_get acc k of JStr a \<Rightarrow> a | _ \<Rightarrow> []"
  let ?acc = "AList.update k (JStr (?a @ t)) acc"
  have "strings_only ?acc" using Cons.prems(1) by (rule strings_only_update)
  from Cons.IH[OF this es ks] obtain m where
    m: "reduce_entries ?acc es = Inr m" "strings_only m"
       "\<And>key. obj_get m key = appended (obj_get ?acc key) (fragments_of key es)"
    by blast
  have "reduce_entries acc (kv # es) = Inr m"
    using m(1) reduce_entries_string[OF Cons.prems(1) k, of t es] kv by simp
  moreover have "obj_get m key = appended (obj_get acc key) (fragments_of key (kv # es))" for key
    using m(3)[of key] kv
    by (auto simp: obj_get_update appended_def fragments_of_def)
  ultimately show ?case using m(2) by blast
qed

lemma accumulate_strings:
  "strings_only acc \<Longrightarrow>
   \<forall>item\<in>set items. string_valued (first_delta item) \<and> own_names (first_delta item) \<Longrightarrow>
   \<exists>m. accumulate acc items = Inr m \<and> strings_only m \<and>
       (\<forall>key. obj_get m key = appended (obj_get acc key) (fragments key items))"
proof (induction items arbitrary: acc)
  case Nil
  then show ?case by (simp add: appended_def fragments_def)
next
  case (Cons item items)
  from Cons.prems(2) obtain c cs kvs where
    c: "choices item = c # cs" "delta c = JObj kvs" "strings_only kvs"
       "list_all (\<lambda>(k, v). k \<notin> set (''__proto__'' # inherited_functions)) kvs"
    by (auto simp: string_valued_def own_names_def first_delta_def strings_only_def
             split: list.splits jsval.splits)
  from reduce_entries_strings[OF Cons.prems(1) c(3,4)] obtain m1 where
    m1: "reduce_entries acc kvs = Inr m1" "strings_only m1"
        "\<And>key. obj_get m1 key = appended (obj_get acc key) (fragments_of key kvs)"
    by blast
  from Cons.prems(2)
  have "\<forall>item\<in>set items. string_valued (first_delta item) \<and> own_names (first_delta item)"
    by simp
  from Cons.IH[OF m1(2) this] obtain m where
    m: "accumulate m1 items = Inr m" "strings_only m"
       "\<And>key. obj_get m key = appended (obj_get m1 key) (fragments key items)"
    by blast
  have "accumulate acc (item # items) = Inr m"
    using c m1(1) m(1) by (simp add: messageReducer_def)
  moreover have "obj_get m key = appended (obj_get acc key) (fragments key (item # items))"
    for key
    using m(3)[of key] m1(3)[of key] c
    by (simp add: appended_appended fragments_def first_delta_def)
  ultimately show ?case using m(2) by blast
qed

text \<open>
  C5, as the code has it. Folding, in order, chunks whose deltas have only string-valued
  top-level fields, none of them named like a member of \<open>Object.prototype\<close>, into the
  empty message succeeds, and each field of the result is the concatenation of the
  fragments the deltas carry for it, in arrival order (a field no delta carries is absent).
\<close>

theorem accumulate_concatenates:
  assumes "\<forall>item\<in>set items. string_valued (first_delta item) \<and> own_names (first_delta item)"
  shows "\<exists>m. accumulate [] items = Inr m \<and>
             (\<forall>key. obj_get m key =
                (if fragments key items = [] then JUndefined
                 else JStr (concat (fragments key items))))"
proof -
  have "strings_only []" by (simp add: strings_only_def)
  from accumulate_strings[OF this assms] show ?thesis
    by (auto simp: appended_def obj_get_def)
qed

theorem accumulate_concatenates_witness:
  "list_all (\<lambda>item. string_valued (first_delta item) \<and> own_names (first_delta item))
     example_chunks \<and>
   (\<exists>m. accumulate [] example_chunks = Inr m \<and>
        obj_get m ''content'' = JStr ''Hi there'' \<and>
        obj_get m ''role'' = JStr ''assistant'' \<and>
        obj_get m ''name'' = JUndefined)"
proof -
  have h: "\<forall>item\<in>set example_chunks.
             string_valued (first_delta item) \<and> own_names (first_delta item)"
    by (simp add: example_chunks_def string_valued_def own_names_def first_delta_def
                  inherited_functions_def)
  have f: "fragments ''content'' example_chunks = [[], ''Hi'', '' there'']"
          "fragments ''role'' example_chunks = [''assistant'']"
          "fragments ''name'' example_chunks = []"
    by (simp_all add: example_chunks_def fragments_def fragments_of_def first_delta_def)
  from accumulate_concatenates [OF h] obtain m where
    m: "accumulate [] example_chunks = Inr m"
       "\<And>key. obj_get m key =
                (if fragments key example_chunks = [] then JUndefined
                 else JStr (concat (fragments key example_chunks)))"
    by blast
  from m(2)[of "''content''"] m(2)[of "''role''"] m(2)[of "''name''"] f
  have "obj_get m ''content'' = JStr ''Hi there''" "obj_get m ''role'' = JStr ''assistant''"
       "obj_get m ''name'' = JUndefined"
    by simp_all
  with m(1) h show ?thesis by (auto simp: list_all_iff)
qed

text \<open>
  C5 as stated fails: a delta with the string-valued fields \<open>content\<close> and \<open>constructor\<close>
  is merged into the empty message without its field \<open>constructor\<close>. The read
  \<open>acc["constructor"]\<close> gives the function \<open>Object\<close> that every object inherits, which
  is neither \<open>undefined\<close> nor \<open>null\<close>, nor a string, nor an object for \<open>typeof\<close>: no
  branch of the merge takes the field, and the result has no fragment of it.
\<close>

theorem accumulate_concatenates_counterexample:
  "string_valued (first_delta constructor_chunk) \<and>
   fragments ''constructor'' [constructor_chunk] = [''x''] \<and>
   accumulate [] [constructor_chunk] = Inr [(''content'', JStr ''Hi'')] \<and>
   obj_get [(''content'', JStr ''Hi'')] ''constructor'' = JUndefined \<and>
   JUndefined \<noteq> JStr (concat (fragments ''constructor'' [constructor_chunk]))"
  by (simp add: constructor_chunk_def string_valued_def first_delta_def fragments_def
                fragments_of_def messageReducer_def acc_get_def obj_get_def
                inherited_functions_def)

section \<open>Properties of the conversation formatter\<close>

lemma push_turns_eq: "push_turns result conversation = result @ map chat_message conversation"
  by (induction conversation arbitrary: result) (simp_all add: chat_message_def)

lemma push_all_eq: "push_all requestMessages ms = requestMessages @ ms"
  by (induction ms arbitrary: requestMessages) simp_all

lemma PreparePrompt_eq:
  "PreparePrompt agent request =
     \<lparr>role = ''system'', content = systemPrompt agent\<rparr> #
     map chat_message (transcript request) @
     (if interaction_type request = ''reminder_required''
      then [\<lparr>role = ''user'',
             content = ''(Now the user has not responded in a while, you would say:)''\<rparr>]
      else [])"
  by (simp add: PreparePrompt_def ConversationToChatRequestMessages_def push_turns_eq
                push_all_eq Let_def)

text \<open>
  C7. For a transcript whose turns have the roles \<open>agent\<close> and \<open>user\<close>, the prepared
  prompt has one message more than the transcript, and one more again for
  \<open>reminder_required\<close>: the system message first, then the turns one to one and in
  order, \<open>agent\<close> as \<open>assistant\<close> and \<open>user\<close> as \<open>user\<close>, each with its content; the
  message added for the reminder comes last and has the role \<open>user\<close>.
\<close>

theorem PreparePrompt_shape:
  assumes "\<forall>turn\<in>set (transcript request). role turn = ''agent'' \<or> role turn = ''user''"
  shows "length (PreparePrompt agent request) =
           length (transcript request) + 1 +
           (if interaction_type request = ''reminder_required'' then 1 else 0) \<and>
         role (PreparePrompt agent request ! 0) = ''system'' \<and>
         (\<forall>i<length (transcript request).
            (role (transcript request ! i) = ''agent'' \<longrightarrow>
               role (PreparePrompt agent request ! Suc i) = ''assistant'') \<and>
            (role (transcript request ! i) = ''user'' \<longrightarrow>
               role (PreparePrompt agent request ! Suc i) = ''user'') \<and>
            role (PreparePrompt agent request ! Suc i) \<in> {''assistant'', ''user''} \<and>
            Utterance.content (PreparePrompt agent request ! Suc i) =
              Utterance.content (transcript request ! i)) \<and>
         (interaction_type request = ''reminder_required'' \<longrightarrow>
            role (last (PreparePrompt agent request)) = ''user'')"
proof -
  have "\<And>i. i < length (transcript request) \<Longrightarrow>
          PreparePrompt agent request ! Suc i = chat_message (transcript request ! i)"
    by (simp add: PreparePrompt_eq nth_append)
  then show ?thesis
    by (auto simp: PreparePrompt_eq chat_message_def)
qed

theorem PreparePrompt_shape_witness:
  "list_all (\<lambda>turn. role turn = ''agent'' \<or> role turn = ''user'') (transcript example_request) \<and>
   length (PreparePrompt agentPrompt example_request) = 4 \<and>
   role (PreparePrompt agentPrompt example_request ! 0) = ''system'' \<and>
   role (PreparePrompt agentPrompt example_request ! 1) = ''assistant'' \<and>
   Utterance.content (PreparePrompt agentPrompt example_request ! 1) = ''Hello'' \<and>
   role (PreparePrompt agentPrompt example_request ! 2) = ''user'' \<and>
   Utterance.content (PreparePrompt agentPrompt example_request ! 2) =
     ''find me a historical book'' \<and>
   role (last (PreparePrompt agentPrompt example_request)) = ''user''"
proof -
  have h: "\<forall>turn\<in>set (transcript example_request). role turn = ''agent'' \<or> role turn = ''user''"
    by (simp add: example_request_def)
  note s = PreparePrompt_shape [OF h, of agentPrompt]
  have t: "length (transcript example_request) = 2"
          "interaction_type example_request = ''reminder_required''"
          "transcript example_request ! 0 = \<lparr>role = ''agent'', content = ''Hello''\<rparr>"
          "transcript example_request ! 1 =
             \<lparr>role = ''user'', content = ''find me a historical book''\<rparr>"
    by (simp_all add: example_request_def)
  from s have all:
    "\<And>i. i < 2 \<Longrightarrow>
       (role (transcript example_request ! i) = ''agent'' \<longrightarrow>
          role (PreparePrompt agentPrompt example_request ! Suc i) = ''assistant'') \<and>
       (role (transcript example_request ! i) = ''user'' \<longrightarrow>
          role (PreparePrompt agentPrompt example_request ! Suc i) = ''user'') \<and>
       Utterance.content (PreparePrompt agentPrompt example_request ! Suc i) =
         Utterance.content (transcript example_request ! i)"
    using t(1) by simp
  from all [of 0] all [of 1] t
  have "role (PreparePrompt agentPrompt example_request ! 1) = ''assistant''"
       "Utterance.content (PreparePrompt agentPrompt example_request ! 1) = ''Hello''"
       "role (PreparePrompt agentPrompt example_request ! 2) = ''user''"
       "Utterance.content (PreparePrompt agentPrompt example_request ! 2) =
          ''find me a historical book''"
    by (simp_all add: numeral_2_eq_2)
  moreover from s t have "length (PreparePrompt agentPrompt example_request) = 4"
    "role (PreparePrompt agentPrompt example_request ! 0) = ''system''"
    "role (last (PreparePrompt agentPrompt example_request)) = ''user''"
    by simp_all
  ultimately show ?thesis using h by (simp add: list_all_iff)
qed

section \<open>The merge writes to fresh objects only\<close>

lemma preserved_refl: "preserved h h"
  by (simp add: preserved_def)

lemma preserved_but_refl: "preserved_but acc h h"
  by (simp add: preserved_but_def)

lemma preserved_imp_but: "preserved h h' \<Longrightarrow> preserved_but acc h h'"
  by (simp add: preserved_but_def preserved_def)

lemma preserved_but_set:
  "preserved_but acc (h_set h acc key v) h' \<Longrightarrow> preserved_but acc h h'"
  by (simp add: preserved_but_def h_set_def)

lemma preserved_then_set:
  "preserved h h1 \<Longrightarrow> preserved_but acc (h_set h1 acc key v) h' \<Longrightarrow> preserved_but acc h h'"
  by (auto simp: preserved_but_def preserved_def h_set_def)

lemma preserved_alloc: "alloc c h = (h1, a) \<Longrightarrow> preserved h h1"
  by (auto simp: preserved_def alloc_def)

lemma preserved_alloc_but:
  "alloc c h = (h1, a) \<Longrightarrow> preserved_but a h1 h' \<Longrightarrow> preserved h h'"
  by (auto simp: preserved_but_def preserved_def alloc_def)

text \<open>
  The call leaves every allocated cell as it was; the loop leaves every allocated cell
  but the copy it writes to. By the induction that follows the two functions.
\<close>

lemma reduce_h_frame:
  "reduce_h depth h acc d = (h', res) \<Longrightarrow> preserved h h'"
  "reduce_h_entries depth h acc es = (h', res) \<Longrightarrow> preserved_but acc h h'"
proof (induction depth h acc d and depth h acc es arbitrary: h' res and h' res
       rule: reduce_h_reduce_h_entries.induct)
  case (1 h acc d)
  then show ?case by (simp add: preserved_refl)
next
  case (2 depth h acc d)
  obtain h1 acc' where a: "alloc (Obj (own_entries (cells h acc))) h = (h1, acc')"
    by (cases "alloc (Obj (own_entries (cells h acc))) h")
  show ?case
  proof (cases "h_entries h1 d")
    case (Inl e)
    with a "2.prems" show ?thesis by (auto dest: preserved_alloc)
  next
    case (Inr es)
    with a "2.prems" have "reduce_h_entries depth h1 acc' es = (h', res)" by simp
    with a [symmetric] Inr have "preserved_but acc' h1 h'" by (rule "2.IH")
    with a show ?thesis by (rule preserved_alloc_but)
  qed
next
  case (3 depth h acc)
  then show ?case by (simp add: preserved_but_refl)
next
  case (4 depth h acc key v es)
  show ?case
  proof (cases "h_get h acc key")
    case HUndefined
    with 4 show ?thesis by (auto intro: preserved_but_set)
  next
    case HNull
    with 4 show ?thesis by (auto intro: preserved_but_set)
  next
    case (HBool b)
    with 4 show ?thesis by auto
  next
    case (HNum n)
    with 4 show ?thesis by auto
  next
    case g: (HStr s)
    show ?thesis
    proof (cases v)
      case (HStr t)
      with g "4.prems"
      have "reduce_h_entries depth (h_set h acc key (HStr (s @ t))) acc es = (h', res)"
        by simp
      with g HStr have "preserved_but acc (h_set h acc key (HStr (s @ t))) h'"
        by (rule "4.IH")
      then show ?thesis by (rule preserved_but_set)
    qed (use 4 g in auto)
  next
    case g: (HRef r)
    show ?thesis
    proof (cases "cells h r")
      case (Arr xs)
      with g 4 show ?thesis by auto
    next
      case (Obj kvs)
      obtain h1 r1 where c: "reduce_h depth h r v = (h1, r1)"
        by (cases "reduce_h depth h r v")
      from g Obj c have p: "preserved h h1" by (rule "4.IH")
      show ?thesis
      proof (cases r1)
        case (Inl e)
        with g Obj c "4.prems" p show ?thesis by (auto intro: preserved_imp_but)
      next
        case (Inr r')
        with g Obj c "4.prems"
        have "reduce_h_entries depth (h_set h1 acc key (HRef r')) acc es = (h', res)"
          by simp
        with g Obj c [symmetric] Inr
        have "preserved_but acc (h_set h1 acc key (HRef r')) h'" by (rule "4.IH")
        with p show ?thesis by (rule preserved_then_set)
      qed
    qed
  qed
qed

text \<open>What the loop returns is the object it was given, and what the call returns is
  its fresh copy.\<close>

lemma reduce_h_entries_result:
  "reduce_h_entries depth h acc es = (h', Inr r) \<Longrightarrow> r = acc"
proof (induction es arbitrary: h)
  case Nil
  then show ?case by simp
next
  case (Cons kv es)
  obtain key v where kv: "kv = (key, v)" by (cases kv)
  from Cons.prems obtain h1 where "reduce_h_entries depth h1 acc es = (h', Inr r)"
    unfolding kv
    by (auto split: hval.splits cell.splits prod.splits sum.splits)
  then show ?case by (rule Cons.IH)
qed

lemma reduce_h_result: "reduce_h depth h acc d = (h', Inr r) \<Longrightarrow> r = next_free h"
  by (cases depth)
     (auto simp: alloc_def split: sum.splits dest: reduce_h_entries_result)

text \<open>
  C9. \<open>messageReducer\<close> does not mutate its argument \<open>previous\<close>: whatever the store, the
  accumulated message, the delta and the depth of stack available, every object
  allocated before the call, so every field of \<open>previous\<close> and of the objects nested in
  it, is the same after the call, also when the call throws; what the call returns is an
  object allocated by the call.
\<close>

theorem messageReducer_keeps_previous:
  "next_free h \<le> next_free (fst (messageReducer_h depth h previous deltas)) \<and>
   (\<forall>a<next_free h. cells (fst (messageReducer_h depth h previous deltas)) a = cells h a) \<and>
   (\<forall>r. snd (messageReducer_h depth h previous deltas) = Inr r \<longrightarrow> r = next_free h)"
proof (cases deltas)
  case Nil
  then show ?thesis by (simp add: messageReducer_h_def)
next
  case (Cons d ds)
  obtain h' res where r: "reduce_h depth h previous d = (h', res)"
    by (cases "reduce_h depth h previous d")
  from r have "preserved h h'" by (rule reduce_h_frame)
  moreover from r have "res = Inr x \<Longrightarrow> x = next_free h" for x
    by (auto dest: reduce_h_result)
  ultimately show ?thesis using Cons r
    by (simp add: messageReducer_h_def preserved_def)
qed

theorem messageReducer_keeps_previous_witness:
  "cells (fst (messageReducer_h 2 example_store 1 [HRef 3])) 1 =
     Obj [(''role'', HStr ''assistant''), (''function_call'', HRef 0)] \<and>
   cells (fst (messageReducer_h 2 example_store 1 [HRef 3])) 0 =
     Obj [(''name'', HStr ''li''), (''arguments'', HStr [])] \<and>
   snd (messageReducer_h 2 example_store 1 [HRef 3]) = Inr 4 \<and>
   cells (fst (messageReducer_h 2 example_store 1 [HRef 3])) 4 =
     Obj [(''role'', HStr ''assistant''), (''function_call'', HRef 5)] \<and>
   cells (fst (messageReducer_h 2 example_store 1 [HRef 3])) 5 =
     Obj [(''name'', HStr ''list''), (''arguments'', HStr ''{'')]"
proof -
  note k = messageReducer_keeps_previous [of example_store 2 1 "[HRef 3]"]
  have n: "next_free example_store = 4" by (simp add: example_store_def)
  from k n have "cells (fst (messageReducer_h 2 example_store 1 [HRef 3])) 1 =
                   cells example_store 1"
    and "cells (fst (messageReducer_h 2 example_store 1 [HRef 3])) 0 = cells example_store 0"
    by simp_all
  moreover have "messageReducer_h 2 example_store 1 [HRef 3] =
      (\<lparr>cells = (cells example_store)
          (4 := Obj [(''role'', HStr ''assistant''), (''function_call'', HRef 5)],
           5 := Obj [(''name'', HStr ''list''), (''arguments'', HStr ''{'')]),
        next_free = 6\<rparr>, Inr 4)"
    by (simp add: messageReducer_h_def numeral_2_eq_2 example_store_def alloc_def h_get_def
                  h_set_def own_entries_def fun_upd_twist)
  ultimately show ?thesis by (simp add: example_store_def)
qed

text \<open>The merge of the same message and delta as values gives the message that the
  store holds at the address returned.\<close>

lemma example_as_values:
  "reduce example_message example_delta =
     Inr [(''role'', JStr ''assistant''),
          (''function_call'', JObj [(''name'', JStr ''list''), (''arguments'', JStr ''{'')])]"
  by (simp add: example_message_def example_delta_def acc_get_def inherited_functions_def)

section \<open>Properties of the response drafting engine\<close>

lemma on_event_partial:
  "partial_only (sent st) \<Longrightarrow> partial_only (sent (fst (on_event rid st event)))"
  by (auto simp: on_event_def partial_only_def partial_frame_def Let_def
           split: sum.splits list.splits)

lemma on_event_flag: "flag_inv st \<Longrightarrow> flag_inv (fst (on_event rid st event))"
  by (auto simp: on_event_def flag_inv_def Let_def split: sum.splits list.splits)

lemma for_await_invariants:
  "partial_only (sent st) \<Longrightarrow> flag_inv st \<Longrightarrow>
   partial_only (sent (fst (for_await rid st events fin))) \<and>
   flag_inv (fst (for_await rid st events fin))"
proof (induction events arbitrary: st)
  case Nil
  then show ?case by simp
next
  case (Cons event events)
  obtain st' thrown where o: "on_event rid st event = (st', thrown)"
    by (cases "on_event rid st event")
  from Cons.prems on_event_partial [of st rid event] on_event_flag [of st rid event] o
  have i: "partial_only (sent st')" "flag_inv st'" by simp_all
  show ?case
  proof (cases thrown)
    case None
    with o Cons.IH [OF i] show ?thesis by simp
  next
    case (Some e)
    with o i show ?thesis by simp
  qed
qed

lemma try_block_invariants:
  "partial_only (sent (fst (try_block rid c))) \<and> flag_inv (fst (try_block rid c))"
proof (cases c)
  case (CreateFails e)
  then show ?thesis
    by (simp add: try_block_def initial_state_def partial_only_def flag_inv_def)
next
  case (Events events fin)
  have "partial_only (sent initial_state)" "flag_inv initial_state"
    by (simp_all add: initial_state_def partial_only_def flag_inv_def)
  from for_await_invariants [OF this] Events show ?thesis
    by (simp add: try_block_def)
qed

lemma drafting_partial: "partial_only (sent (fst (drafting create request)))"
  using try_block_invariants by (simp add: drafting_def)

lemma drafting_flag:
  "\<not> executeFunction (fst (drafting create request)) \<Longrightarrow>
   funcCall (fst (drafting create request)) = JNull"
  using try_block_invariants [of "RetellRequest.response_id request"
          "create (PreparePrompt agentPrompt request)"]
  by (simp add: drafting_def flag_inv_def)

text \<open>\<open>DraftResponse\<close> past the test for \<open>update_only\<close>, by the state its \<open>try\<close> block
  ends in.\<close>

lemma DraftResponse_drafting:
  "interaction_type request \<noteq> ''update_only'' \<Longrightarrow>
   DraftResponse JSON_parse JSON_stringify create lastPrintedUserMessage request =
     (let st = fst (drafting create request);
          logged = (case snd (drafting create request) of None \<Rightarrow> [] | Some err \<Rightarrow> [err]);
          printed = update_printed lastPrintedUserMessage request;
          rid = RetellRequest.response_id request
      in if truthy (funcCall st) then
           (case callFunction JSON_parse (funcCall st) of
              Inl e \<Rightarrow>
                \<lparr>frames = sent st, console_error = logged,
                 rejected = Some e, lastPrinted = printed\<rparr>
            | Inr result \<Rightarrow>
                \<lparr>frames = sent st @ [tool_frame JSON_stringify rid result],
                 console_error = logged, rejected = None, lastPrinted = printed\<rparr>)
         else
           \<lparr>frames = sent st @ [terminal_frame rid], console_error = logged,
            rejected = None, lastPrinted = printed\<rparr>)"
  by (simp add: DraftResponse_def drafting_def Let_def split_beta)

lemma DraftResponse_logs:
  "interaction_type request \<noteq> ''update_only'' \<Longrightarrow>
   console_error (DraftResponse JSON_parse JSON_stringify create lastPrintedUserMessage request) =
     (case snd (drafting create request) of None \<Rightarrow> [] | Some err \<Rightarrow> [err])"
  by (simp add: DraftResponse_drafting Let_def split: sum.splits)

lemma tool_frame_partial: "\<not> content_complete (tool_frame JSON_stringify rid result)"
  by (simp add: tool_frame_def)

text \<open>The same for the client without tools.\<close>

lemma on_event_openai_partial:
  "partial_only (sent st) \<Longrightarrow> partial_only (sent (fst (on_event_openai rid st event)))"
  by (auto simp: on_event_openai_def partial_only_def partial_frame_def
           split: sum.splits list.splits)

lemma for_await_openai_partial:
  "partial_only (sent st) \<Longrightarrow> partial_only (sent (fst (for_await_openai rid st events fin)))"
proof (induction events arbitrary: st)
  case Nil
  then show ?case by simp
next
  case (Cons event events)
  obtain st' thrown where o: "on_event_openai rid st event = (st', thrown)"
    by (cases "on_event_openai rid st event")
  from Cons.prems on_event_openai_partial [of st rid event] o
  have p: "partial_only (sent st')" by simp
  show ?case
  proof (cases thrown)
    case None
    with o Cons.IH [OF p] show ?thesis by simp
  next
    case (Some e)
    with o p show ?thesis by simp
  qed
qed

lemma drafting_openai_partial: "partial_only (sent (fst (drafting_openai create request)))"
proof (cases "create (PreparePrompt agentPrompt_openai request)")
  case (CreateFails e)
  then show ?thesis
    by (simp add: drafting_openai_def try_block_openai_def initial_stream_state_def
                  partial_only_def)
next
  case (Events events fin)
  have "partial_only (sent initial_stream_state)"
    by (simp add: initial_stream_state_def partial_only_def)
  from for_await_openai_partial [OF this] Events show ?thesis
    by (simp add: drafting_openai_def try_block_openai_def)
qed

lemma DraftResponse_openai_drafting:
  "interaction_type request \<noteq> ''update_only'' \<Longrightarrow>
   DraftResponse_openai create lastPrintedUserMessage request =
     \<lparr>frames = sent (fst (drafting_openai create request)) @
                [terminal_frame (RetellRequest.response_id request)],
      console_error =
        (case snd (drafting_openai create request) of None \<Rightarrow> [] | Some err \<Rightarrow> [err]),
      rejected = None,
      lastPrinted = update_printed lastPrintedUserMessage request\<rparr>"
  by (simp add: DraftResponse_openai_def drafting_openai_def Let_def split_beta)

text \<open>
  What the \<open>try\<close> block hands to \<open>catch\<close>. The body of the loop throws where
  \<open>messageReducer\<close> throws, or where the content of the chunk cannot be converted to a
  string. Where every content can be converted, the loop ends with the first error of a
  merge, if there is one, and otherwise visits every chunk, its message the accumulation
  of the chunks, and ends as the stream ends. A stream that throws in the end leaves the
  \<open>try\<close> block with an error in any case.
\<close>

lemma js_get_truthy: "truthy v \<Longrightarrow> js_get v k \<noteq> Inl e"
  by (cases v) simp_all

lemma on_event_message:
  "messageReducer (message st) event = Inr m \<Longrightarrow> content_converts event \<Longrightarrow>
   message (fst (on_event rid st event)) = m \<and> snd (on_event rid st event) = None"
  by (auto simp: on_event_def content_converts_def first_delta_def Let_def js_get_truthy
           split: list.splits sum.splits)

lemma on_event_throws:
  "messageReducer (message st) event = Inl e \<Longrightarrow> on_event rid st event = (st, Some e)"
  by (simp add: on_event_def)

lemma for_await_accumulates:
  "accumulate (message st) events = Inr m \<Longrightarrow> \<forall>event\<in>set events. content_converts event \<Longrightarrow>
   message (fst (for_await rid st events fin)) = m \<and> snd (for_await rid st events fin) = fin"
proof (induction events arbitrary: st)
  case Nil
  then show ?case by simp
next
  case (Cons event events)
  from Cons.prems(1) obtain m1 where
    m1: "messageReducer (message st) event = Inr m1" "accumulate m1 events = Inr m"
    by (auto split: sum.splits)
  from Cons.prems(2) have c: "content_converts event"
    and cs: "\<forall>event\<in>set events. content_converts event" by simp_all
  obtain st' where o: "on_event rid st event = (st', None)" "message st' = m1"
    using on_event_message [OF m1(1) c, of rid] by (cases "on_event rid st event") auto
  from Cons.IH [of st'] m1(2) o cs show ?case by simp
qed

lemma for_await_merge_fails:
  "accumulate (message st) events = Inl e \<Longrightarrow> \<forall>event\<in>set events. content_converts event \<Longrightarrow>
   snd (for_await rid st events fin) = Some e"
proof (induction events arbitrary: st)
  case Nil
  then show ?case by simp
next
  case (Cons event events)
  from Cons.prems(2) have c: "content_converts event"
    and cs: "\<forall>event\<in>set events. content_converts event" by simp_all
  show ?case
  proof (cases "messageReducer (message st) event")
    case (Inl e')
    with Cons.prems(1) have "e' = e" by simp
    with Inl show ?thesis by (simp add: on_event_throws)
  next
    case (Inr m1)
    with Cons.prems(1) have a: "accumulate m1 events = Inl e" by simp
    obtain st' where o: "on_event rid st event = (st', None)" "message st' = m1"
      using on_event_message [OF Inr c, of rid] by (cases "on_event rid st event") auto
    from Cons.IH [of st'] a o cs show ?thesis by simp
  qed
qed

lemma for_await_stream_throws: "\<exists>e'. snd (for_await rid st events (Some e)) = Some e'"
proof (induction events arbitrary: st)
  case Nil
  then show ?case by simp
next
  case (Cons event events)
  obtain st' thrown where o: "on_event rid st event = (st', thrown)"
    by (cases "on_event rid st event")
  show ?case
  proof (cases thrown)
    case None
    with o Cons.IH [of st'] show ?thesis by simp
  next
    case (Some e')
    with o show ?thesis by simp
  qed
qed

lemma drafting_thrown:
  "create (PreparePrompt agentPrompt request) = CreateFails e \<Longrightarrow>
   drafting create request = (initial_state, Some e)"
  "create (PreparePrompt agentPrompt request) = Events events (Some e) \<Longrightarrow>
   \<exists>e'. snd (drafting create request) = Some e'"
  "create (PreparePrompt agentPrompt request) = Events events fin \<Longrightarrow>
   \<forall>event\<in>set events. content_converts event \<Longrightarrow>
   snd (drafting create request) =
     (case accumulate [] events of Inl e \<Rightarrow> Some e | Inr m \<Rightarrow> fin)"
proof -
  show "drafting create request = (initial_state, Some e)"
    if "create (PreparePrompt agentPrompt request) = CreateFails e"
    using that by (simp add: drafting_def try_block_def)
  show "\<exists>e'. snd (drafting create request) = Some e'"
    if "create (PreparePrompt agentPrompt request) = Events events (Some e)"
    using that for_await_stream_throws by (simp add: drafting_def try_block_def)
  show "snd (drafting create request) =
          (case accumulate [] events of Inl e \<Rightarrow> Some e | Inr m \<Rightarrow> fin)"
    if c: "create (PreparePrompt agentPrompt request) = Events events fin"
      and v: "\<forall>event\<in>set events. content_converts event"
  proof (cases "accumulate [] events")
    case (Inl e)
    then have "accumulate (message initial_state) events = Inl e"
      by (simp add: initial_state_def)
    from for_await_merge_fails [OF this v] c Inl show ?thesis
      by (simp add: drafting_def try_block_def)
  next
    case (Inr m)
    then have "accumulate (message initial_state) events = Inr m"
      by (simp add: initial_state_def)
    from for_await_accumulates [OF this v] c Inr show ?thesis
      by (simp add: drafting_def try_block_def)
  qed
qed

lemma on_event_openai_converts:
  "content_converts event \<Longrightarrow> snd (on_event_openai rid st event) = None"
  by (auto simp: on_event_openai_def content_converts_def first_delta_def js_get_truthy
           split: list.splits sum.splits)

lemma for_await_openai_ends:
  "\<forall>event\<in>set events. content_converts event \<Longrightarrow>
   snd (for_await_openai rid st events fin) = fin"
proof (induction events arbitrary: st)
  case Nil
  then show ?case by simp
next
  case (Cons event events)
  obtain st' where o: "on_event_openai rid st event = (st', None)"
    using on_event_openai_converts [of event rid st] Cons.prems
    by (cases "on_event_openai rid st event") auto
  from Cons.IH [of st'] Cons.prems o show ?case by simp
qed

lemma for_await_openai_stream_throws:
  "\<exists>e'. snd (for_await_openai rid st events (Some e)) = Some e'"
proof (induction events arbitrary: st)
  case Nil
  then show ?case by simp
next
  case (Cons event events)
  obtain st' thrown where o: "on_event_openai rid st event = (st', thrown)"
    by (cases "on_event_openai rid st event")
  show ?case
  proof (cases thrown)
    case None
    with o Cons.IH [of st'] show ?thesis by simp
  next
    case (Some e')
    with o show ?thesis by simp
  qed
qed

lemma drafting_openai_thrown:
  "create (PreparePrompt agentPrompt_openai request) = CreateFails e \<Longrightarrow>
   drafting_openai create request = (initial_stream_state, Some e)"
  "create (PreparePrompt agentPrompt_openai request) = Events events (Some e) \<Longrightarrow>
   \<exists>e'. snd (drafting_openai create request) = Some e'"
  "create (PreparePrompt agentPrompt_openai request) = Events events fin \<Longrightarrow>
   \<forall>event\<in>set events. content_converts event \<Longrightarrow>
   snd (drafting_openai create request) = fin"
  using for_await_openai_stream_throws for_await_openai_ends
  by (simp_all add: drafting_openai_def try_block_openai_def)

text \<open>A stream none of whose chunks signals a tool invocation detects none.\<close>

lemma on_event_no_signal:
  "\<not> signals_tool_call event \<Longrightarrow>
   executeFunction (fst (on_event rid st event)) = executeFunction st"
  by (auto simp: on_event_def signals_tool_call_def Let_def split: sum.splits list.splits)

lemma for_await_no_signal:
  "\<forall>event\<in>set events. \<not> signals_tool_call event \<Longrightarrow>
   executeFunction (fst (for_await rid st events fin)) = executeFunction st"
proof (induction events arbitrary: st)
  case Nil
  then show ?case by simp
next
  case (Cons event events)
  obtain st' thrown where o: "on_event rid st event = (st', thrown)"
    by (cases "on_event rid st event")
  from Cons.prems on_event_no_signal [of event rid st] o
  have s: "executeFunction st' = executeFunction st" by simp
  show ?case
  proof (cases thrown)
    case None
    with o s Cons.IH [of st'] Cons.prems show ?thesis by simp
  next
    case (Some e)
    with o s show ?thesis by simp
  qed
qed

lemma drafting_no_signal:
  "(case create (PreparePrompt agentPrompt request) of
      CreateFails e \<Rightarrow> True
    | Events events fin \<Rightarrow> \<forall>event\<in>set events. \<not> signals_tool_call event) \<Longrightarrow>
   \<not> executeFunction (fst (drafting create request))"
  by (cases "create (PreparePrompt agentPrompt request)")
     (simp_all add: drafting_def try_block_def for_await_no_signal initial_state_def)

text \<open>
  C1, as the code has it. In a cycle that detects a tool call and finds a function call
  in the accumulated message at that point, so that \<open>funcCall\<close> holds a truthy value,
  no frame has \<open>content_complete = true\<close>; after the partial frames of the loop there
  is at most one more frame, the tool-result frame, with \<open>content_complete = false\<close>,
  and it is there exactly when \<open>callFunction\<close> raised no error.
\<close>

theorem tool_call_cycle_frames:
  assumes "interaction_type request \<noteq> ''update_only''"
    and "truthy (funcCall (fst (drafting create request)))"
  shows "executeFunction (fst (drafting create request)) \<and>
         frames (DraftResponse JSON_parse JSON_stringify create lastPrintedUserMessage request) =
           sent (fst (drafting create request)) @
           (case callFunction JSON_parse (funcCall (fst (drafting create request))) of
              Inl e \<Rightarrow> []
            | Inr result \<Rightarrow>
                [tool_frame JSON_stringify (RetellRequest.response_id request) result]) \<and>
         (\<forall>f\<in>set (frames (DraftResponse JSON_parse JSON_stringify create
                              lastPrintedUserMessage request)).
            \<not> content_complete f)"
proof -
  let ?st = "fst (drafting create request)"
  have "executeFunction ?st"
  proof (rule ccontr)
    assume "\<not> executeFunction ?st"
    then have "funcCall ?st = JNull" by (rule drafting_flag)
    with assms(2) show False by simp
  qed
  moreover have "partial_only (sent ?st)" by (rule drafting_partial)
  ultimately show ?thesis using assms
    by (auto simp: DraftResponse_drafting Let_def partial_only_def list_all_iff
                   tool_frame_partial split: sum.splits)
qed

theorem tool_call_cycle_frames_witness:
  "interaction_type normal_request \<noteq> ''update_only'' \<and>
   truthy (funcCall (fst (drafting
     (\<lambda>messages. Events [call_chunk ''list'' ''{\"genre\":\"historical\"}'',
                          finish_chunk ''function_call''] None) normal_request))) \<and>
   frames (DraftResponse parse_example stringify_example
     (\<lambda>messages. Events [call_chunk ''list'' ''{\"genre\":\"historical\"}'',
                          finish_chunk ''function_call''] None) None normal_request) =
     [\<lparr>RetellResponse.response_id = 7,
       content = JStr ''The function call result is: [...]'',
       content_complete = False, end_call = False\<rparr>]"
proof -
  let ?create = "\<lambda>messages :: Utterance list.
     Events [call_chunk ''list'' ''{\"genre\":\"historical\"}'',
             finish_chunk ''function_call''] None"
  have u: "interaction_type normal_request \<noteq> ''update_only''"
    by (simp add: normal_request_def)
  have d: "fst (drafting ?create normal_request) =
             \<lparr>completeMessage = [], sent = [],
              message = [(''function_call'',
                           JObj [(''name'', JStr ''list''),
                                 (''arguments'', JStr ''{\"genre\":\"historical\"}'')])],
              funcCall = JObj [(''name'', JStr ''list''),
                               (''arguments'', JStr ''{\"genre\":\"historical\"}'')],
              executeFunction = True\<rparr>"
    by (simp add: drafting_def try_block_def on_event_def messageReducer_def obj_get_def
                  acc_get_def inherited_functions_def
                  initial_state_def call_chunk_def finish_chunk_def)
  then have t: "truthy (funcCall (fst (drafting ?create normal_request)))"
    by simp
  have c: "callFunction parse_example
             (JObj [(''name'', JStr ''list''),
                    (''arguments'', JStr ''{\"genre\":\"historical\"}'')]) =
           Inr (JArr (map name_id db))"
    by (simp add: callFunction_def parse_example_def list_def db_def)
  have s: "stringify_example (JArr (map name_id db)) = Some ''[...]''"
    by (simp add: stringify_example_def)
  from tool_call_cycle_frames [OF u t, of parse_example stringify_example None] d c s u t
  show ?thesis
    by (simp add: tool_frame_def normal_request_def)
qed

text \<open>
  C1 as stated fails: a chunk with \<open>finish_reason\<close> \<open>function_call\<close> that arrives while
  the accumulated message has no \<open>function_call\<close> field is a detected tool call, and
  leaves \<open>funcCall\<close> \<open>undefined\<close>; the cycle then ends with the terminal frame.
\<close>

theorem tool_call_cycle_frames_counterexample:
  "executeFunction (fst (drafting
     (\<lambda>messages. Events [finish_chunk ''function_call''] None) normal_request)) \<and>
   frames (DraftResponse parse_example stringify_example
     (\<lambda>messages. Events [finish_chunk ''function_call''] None) None normal_request) =
     [terminal_frame 7] \<and>
   content_complete (terminal_frame 7)"
  by (simp add: DraftResponse_def drafting_def try_block_def on_event_def
                messageReducer_def obj_get_def initial_state_def finish_chunk_def
                normal_request_def terminal_frame_def Let_def)

text \<open>
  C2. In a cycle whose interaction type is not \<open>update_only\<close> and that detects no tool
  call, the frames are the partial frames of the loop, none of them complete, and after
  them exactly one frame with \<open>content_complete = true\<close> and the empty content; the
  promise of \<open>DraftResponse\<close> is not rejected. This holds for whatever the provider does.
  What it does wrong is printed by \<open>console.error\<close>, in every cycle: where the call
  \<open>create\<close> fails, its error is printed and the terminal frame is the only frame; where
  the stream throws in the end, one error is printed; and where the content of every
  chunk can be converted to a string, what is printed is the error of the first merge
  that throws, or else the error the stream throws in the end, or else nothing. The
  client without tools of \<open>llm_openai.ts\<close> ends every cycle this way, and prints the same.
\<close>

theorem no_tool_cycle_terminal_frame:
  assumes "interaction_type request \<noteq> ''update_only''"
  shows "(\<not> executeFunction (fst (drafting create request)) \<longrightarrow>
            frames (DraftResponse JSON_parse JSON_stringify create
                      lastPrintedUserMessage request) =
              sent (fst (drafting create request)) @
              [terminal_frame (RetellRequest.response_id request)] \<and>
            (\<forall>f\<in>set (sent (fst (drafting create request))). \<not> content_complete f) \<and>
            rejected (DraftResponse JSON_parse JSON_stringify create
                        lastPrintedUserMessage request) = None) \<and>
         content_complete (terminal_frame (RetellRequest.response_id request)) \<and>
         RetellResponse.content (terminal_frame (RetellRequest.response_id request)) = JStr [] \<and>
         (\<forall>e. create (PreparePrompt agentPrompt request) = CreateFails e \<longrightarrow>
            \<not> executeFunction (fst (drafting create request)) \<and>
            frames (DraftResponse JSON_parse JSON_stringify create
                      lastPrintedUserMessage request) =
              [terminal_frame (RetellRequest.response_id request)] \<and>
            console_error (DraftResponse JSON_parse JSON_stringify create
                             lastPrintedUserMessage request) = [e]) \<and>
         (\<forall>events e. create (PreparePrompt agentPrompt request) = Events events (Some e) \<longrightarrow>
            (\<exists>e'. console_error (DraftResponse JSON_parse JSON_stringify create
                                    lastPrintedUserMessage request) = [e'])) \<and>
         (\<forall>events fin. create (PreparePrompt agentPrompt request) = Events events fin \<and>
            (\<forall>event\<in>set events. content_converts event) \<longrightarrow>
            console_error (DraftResponse JSON_parse JSON_stringify create
                             lastPrintedUserMessage request) =
              (case accumulate [] events of
                 Inl e \<Rightarrow> [e]
               | Inr m \<Rightarrow> (case fin of None \<Rightarrow> [] | Some e \<Rightarrow> [e]))) \<and>
         frames (DraftResponse_openai create lastPrintedUserMessage request) =
           sent (fst (drafting_openai create request)) @
           [terminal_frame (RetellRequest.response_id request)] \<and>
         (\<forall>f\<in>set (sent (fst (drafting_openai create request))). \<not> content_complete f) \<and>
         rejected (DraftResponse_openai create lastPrintedUserMessage request) = None \<and>
         (\<forall>e. create (PreparePrompt agentPrompt_openai request) = CreateFails e \<longrightarrow>
            frames (DraftResponse_openai create lastPrintedUserMessage request) =
              [terminal_frame (RetellRequest.response_id request)] \<and>
            console_error (DraftResponse_openai create lastPrintedUserMessage request) = [e]) \<and>
         (\<forall>events e.
            create (PreparePrompt agentPrompt_openai request) = Events events (Some e) \<longrightarrow>
            (\<exists>e'. console_error (DraftResponse_openai create
                                    lastPrintedUserMessage request) = [e'])) \<and>
         (\<forall>events fin. create (PreparePrompt agentPrompt_openai request) = Events events fin \<and>
            (\<forall>event\<in>set events. content_converts event) \<longrightarrow>
            console_error (DraftResponse_openai create lastPrintedUserMessage request) =
              (case fin of None \<Rightarrow> [] | Some e \<Rightarrow> [e]))"
proof -
  let ?st = "fst (drafting create request)"
  let ?rid = "RetellRequest.response_id request"
  let ?D = "DraftResponse JSON_parse JSON_stringify create lastPrintedUserMessage request"
  let ?O = "DraftResponse_openai create lastPrintedUserMessage request"
  note l = DraftResponse_logs [OF assms, of JSON_parse JSON_stringify create lastPrintedUserMessage]
  note o = DraftResponse_openai_drafting [OF assms, of create lastPrintedUserMessage]
  have p: "partial_only (sent ?st)" by (rule drafting_partial)
  have a: "frames ?D = sent ?st @ [terminal_frame ?rid] \<and>
           (\<forall>f\<in>set (sent ?st). \<not> content_complete f) \<and> rejected ?D = None"
    if "\<not> executeFunction ?st"
  proof -
    from that have "funcCall ?st = JNull" by (rule drafting_flag)
    then have "\<not> truthy (funcCall ?st)" by simp
    with p assms show ?thesis
      by (simp add: DraftResponse_drafting Let_def partial_only_def list_all_iff)
  qed
  have t: "content_complete (terminal_frame ?rid)"
          "RetellResponse.content (terminal_frame ?rid) = JStr []"
    by (simp_all add: terminal_frame_def)
  have b: "\<not> executeFunction ?st \<and> frames ?D = [terminal_frame ?rid] \<and> console_error ?D = [e]"
    if c: "create (PreparePrompt agentPrompt request) = CreateFails e" for e
  proof -
    from c have d: "drafting create request = (initial_state, Some e)"
      by (rule drafting_thrown(1))
    then have n: "\<not> executeFunction ?st" by (simp add: initial_state_def)
    from a [OF n] d l n show ?thesis by (simp add: initial_state_def)
  qed
  have c: "\<exists>e'. console_error ?D = [e']"
    if "create (PreparePrompt agentPrompt request) = Events events (Some e)" for events e
    using drafting_thrown(2) [of create request events e, OF that] l by auto
  have d: "console_error ?D =
             (case accumulate [] events of
                Inl e \<Rightarrow> [e]
              | Inr m \<Rightarrow> (case fin of None \<Rightarrow> [] | Some e \<Rightarrow> [e]))"
    if "create (PreparePrompt agentPrompt request) = Events events fin"
      and "\<forall>event\<in>set events. content_converts event" for events fin
    using drafting_thrown(3) [of create request events fin, OF that] l
    by (simp split: sum.splits)
  have q: "partial_only (sent (fst (drafting_openai create request)))"
    by (rule drafting_openai_partial)
  have e: "frames ?O = sent (fst (drafting_openai create request)) @ [terminal_frame ?rid]"
          "\<forall>f\<in>set (sent (fst (drafting_openai create request))). \<not> content_complete f"
          "rejected ?O = None"
    using o q by (simp_all add: partial_only_def list_all_iff)
  have f: "frames ?O = [terminal_frame ?rid] \<and> console_error ?O = [e]"
    if "create (PreparePrompt agentPrompt_openai request) = CreateFails e" for e
    using drafting_openai_thrown(1) [of create request e, OF that] o
    by (simp add: initial_stream_state_def)
  have g: "\<exists>e'. console_error ?O = [e']"
    if "create (PreparePrompt agentPrompt_openai request) = Events events (Some e)"
    for events e
    using drafting_openai_thrown(2) [of create request events e, OF that] o by auto
  have h: "console_error ?O = (case fin of None \<Rightarrow> [] | Some e \<Rightarrow> [e])"
    if "create (PreparePrompt agentPrompt_openai request) = Events events fin"
      and "\<forall>event\<in>set events. content_converts event" for events fin
    using drafting_openai_thrown(3) [of create request events fin, OF that] o by simp
  from a t b c d e f g h show ?thesis by blast
qed

theorem no_tool_cycle_terminal_frame_witness:
  "interaction_type normal_request \<noteq> ''update_only'' \<and>
   \<not> executeFunction (fst (drafting
       (\<lambda>messages. Events [content_chunk ''Hi'', content_chunk '' there'']
                      (Some ProviderError)) normal_request)) \<and>
   frames (DraftResponse parse_example stringify_example
       (\<lambda>messages. Events [content_chunk ''Hi'', content_chunk '' there'']
                      (Some ProviderError)) None normal_request) =
     [partial_frame 7 (JStr ''Hi''), partial_frame 7 (JStr '' there''), terminal_frame 7] \<and>
   console_error (DraftResponse parse_example stringify_example
       (\<lambda>messages. Events [content_chunk ''Hi'', content_chunk '' there'']
                      (Some ProviderError)) None normal_request) = [ProviderError] \<and>
   rejected (DraftResponse parse_example stringify_example
       (\<lambda>messages. Events [content_chunk ''Hi'', content_chunk '' there'']
                      (Some ProviderError)) None normal_request) = None \<and>
   frames (DraftResponse_openai
       (\<lambda>messages. Events [content_chunk ''Hi'', content_chunk '' there'']
                      (Some ProviderError)) None normal_request) =
     [partial_frame 7 (JStr ''Hi''), partial_frame 7 (JStr '' there''), terminal_frame 7] \<and>
   console_error (DraftResponse_openai
       (\<lambda>messages. Events [content_chunk ''Hi'', content_chunk '' there'']
                      (Some ProviderError)) None normal_request) = [ProviderError]"
proof -
  let ?events = "[content_chunk ''Hi'', content_chunk '' there'']"
  let ?create = "\<lambda>messages :: Utterance list. Events ?events (Some ProviderError)"
  have u: "interaction_type normal_request \<noteq> ''update_only''"
    by (simp add: normal_request_def)
  have r: "RetellRequest.response_id normal_request = 7"
    by (simp add: normal_request_def)
  have d: "fst (drafting ?create normal_request) =
             \<lparr>completeMessage = ''Hi there'',
              sent = [partial_frame 7 (JStr ''Hi''), partial_frame 7 (JStr '' there'')],
              message = [(''content'', JStr ''Hi there'')], funcCall = JNull,
              executeFunction = False\<rparr>"
    by (simp add: drafting_def try_block_def on_event_def messageReducer_def
                  acc_get_def inherited_functions_def
                  initial_state_def content_chunk_def normal_request_def)
  then have e: "\<not> executeFunction (fst (drafting ?create normal_request))"
    by simp
  have o: "fst (drafting_openai ?create normal_request) =
             \<lparr>completeMessage = ''Hi there'',
              sent = [partial_frame 7 (JStr ''Hi''), partial_frame 7 (JStr '' there'')]\<rparr>"
    by (simp add: drafting_openai_def try_block_openai_def on_event_openai_def
                  initial_stream_state_def content_chunk_def normal_request_def)
  have v: "\<forall>event\<in>set ?events. content_converts event"
    by (simp add: content_converts_def first_delta_def content_chunk_def)
  have a: "accumulate [] ?events = Inr [(''content'', JStr ''Hi there'')]"
    by (simp add: messageReducer_def acc_get_def inherited_functions_def content_chunk_def)
  note s = no_tool_cycle_terminal_frame
             [OF u, of ?create parse_example stringify_example None]
  from s e have "frames (DraftResponse parse_example stringify_example ?create None
                          normal_request) =
                   sent (fst (drafting ?create normal_request)) @
                   [terminal_frame (RetellRequest.response_id normal_request)]"
    and "rejected (DraftResponse parse_example stringify_example ?create None
                     normal_request) = None"
    by blast+
  moreover from s v have "console_error (DraftResponse parse_example stringify_example ?create
                                   None normal_request) =
                   (case accumulate [] ?events of
                      Inl e \<Rightarrow> [e]
                    | Inr m \<Rightarrow> [ProviderError])"
    by (auto split: sum.splits)
  moreover from s have "frames (DraftResponse_openai ?create None normal_request) =
                   sent (fst (drafting_openai ?create normal_request)) @
                   [terminal_frame (RetellRequest.response_id normal_request)]"
    by blast
  moreover from s v have "console_error (DraftResponse_openai ?create None normal_request) =
                   [ProviderError]"
    by auto
  ultimately show ?thesis using u e d o a r by simp
qed

text \<open>
  A captured tool call whose execution fails: the call of \<open>callFunction\<close> stands in the
  \<open>finally\<close> block, outside the \<open>try\<close>, so its error is not handed to \<open>catch\<close>. No
  tool-result frame and no terminal frame is sent, nothing but an error of the stream is
  printed, and the promise of \<open>DraftResponse\<close> is rejected with the error of the tool.
\<close>

lemma DraftResponse_tool_failure:
  assumes "interaction_type request \<noteq> ''update_only''"
    and "truthy (funcCall (fst (drafting create request)))"
    and "callFunction JSON_parse (funcCall (fst (drafting create request))) = Inl e"
  shows "rejected (DraftResponse JSON_parse JSON_stringify create
                     lastPrintedUserMessage request) = Some e \<and>
         frames (DraftResponse JSON_parse JSON_stringify create lastPrintedUserMessage request) =
           sent (fst (drafting create request)) \<and>
         (\<forall>f\<in>set (sent (fst (drafting create request))). \<not> content_complete f) \<and>
         console_error (DraftResponse JSON_parse JSON_stringify create
                          lastPrintedUserMessage request) =
           (case snd (drafting create request) of None \<Rightarrow> [] | Some err \<Rightarrow> [err])"
proof -
  have "partial_only (sent (fst (drafting create request)))" by (rule drafting_partial)
  with assms show ?thesis
    by (simp add: DraftResponse_drafting Let_def partial_only_def list_all_iff)
qed

text \<open>
  C3, the code at three captured tool calls whose execution fails: a call of a tool that
  is not registered (\<open>order\<close>), a call whose argument text is no JSON, and a call of
  \<open>search\<close> whose \<open>name\<close> argument is an object with a property \<open>toString\<close>, on which the
  handler itself fails. In each the stream ends normally; the cycle sends no frame at
  all and prints nothing with \<open>console.error\<close>, and the promise of \<open>DraftResponse\<close> is
  rejected with the error of the tool. The failure is neither caught nor logged, and the
  cycle does not complete.
\<close>

theorem tool_failure_unhandled:
  "rejected (DraftResponse parse_example stringify_example
     (\<lambda>messages. Events [call_chunk ''order'' ''{}'', finish_chunk ''function_call''] None)
     None normal_request) = Some (Error ''No function found'') \<and>
   console_error (DraftResponse parse_example stringify_example
     (\<lambda>messages. Events [call_chunk ''order'' ''{}'', finish_chunk ''function_call''] None)
     None normal_request) = [] \<and>
   frames (DraftResponse parse_example stringify_example
     (\<lambda>messages. Events [call_chunk ''order'' ''{}'', finish_chunk ''function_call''] None)
     None normal_request) = [] \<and>
   rejected (DraftResponse parse_example stringify_example
     (\<lambda>messages. Events [call_chunk ''list'' ''{\"genre\":'', finish_chunk ''function_call'']
                    None)
     None normal_request) = Some SyntaxError \<and>
   console_error (DraftResponse parse_example stringify_example
     (\<lambda>messages. Events [call_chunk ''list'' ''{\"genre\":'', finish_chunk ''function_call'']
                    None)
     None normal_request) = [] \<and>
   frames (DraftResponse parse_example stringify_example
     (\<lambda>messages. Events [call_chunk ''list'' ''{\"genre\":'', finish_chunk ''function_call'']
                    None)
     None normal_request) = [] \<and>
   rejected (DraftResponse
     (\<lambda>text. Some (JObj [(''name'', JObj [(''toString'', JNum 1)])])) stringify_example
     (\<lambda>messages. Events [call_chunk ''search'' ''{\"name\":{\"toString\":1}}'',
                          finish_chunk ''function_call''] None)
     None normal_request) = Some TypeError \<and>
   console_error (DraftResponse
     (\<lambda>text. Some (JObj [(''name'', JObj [(''toString'', JNum 1)])])) stringify_example
     (\<lambda>messages. Events [call_chunk ''search'' ''{\"name\":{\"toString\":1}}'',
                          finish_chunk ''function_call''] None)
     None normal_request) = [] \<and>
   frames (DraftResponse
     (\<lambda>text. Some (JObj [(''name'', JObj [(''toString'', JNum 1)])])) stringify_example
     (\<lambda>messages. Events [call_chunk ''search'' ''{\"name\":{\"toString\":1}}'',
                          finish_chunk ''function_call''] None)
     None normal_request) = []"
proof -
  have d: "try_block 7 (Events [call_chunk n a, finish_chunk ''function_call''] None) =
             (\<lparr>completeMessage = [], sent = [],
               message = [(''function_call'', JObj [(''name'', JStr n), (''arguments'', JStr a)])],
               funcCall = JObj [(''name'', JStr n), (''arguments'', JStr a)],
               executeFunction = True\<rparr>, None)" for n a
    by (simp add: try_block_def on_event_def messageReducer_def obj_get_def
                  acc_get_def inherited_functions_def
                  initial_state_def call_chunk_def finish_chunk_def)
  have u: "interaction_type normal_request \<noteq> ''update_only''"
          "RetellRequest.response_id normal_request = 7"
    by (simp_all add: normal_request_def)
  have 1: "callFunction parse_example
             (JObj [(''name'', JStr ''order''), (''arguments'', JStr ''{}'')]) =
           Inl (Error ''No function found'')"
    by (simp add: callFunction_def parse_example_def)
  have 2: "callFunction parse_example
             (JObj [(''name'', JStr ''list''), (''arguments'', JStr ''{\"genre\":'')]) =
           Inl SyntaxError"
    by (simp add: callFunction_def parse_example_def)
  have 3: "callFunction (\<lambda>text. Some (JObj [(''name'', JObj [(''toString'', JNum 1)])]))
             (JObj [(''name'', JStr ''search''),
                    (''arguments'', JStr ''{\"name\":{\"toString\":1}}'')]) =
           Inl TypeError"
    by (simp add: callFunction_def search_fails)
  show ?thesis
    by (simp add: DraftResponse_def Let_def u d 1 2 3)
qed




end
